theory Spec2Isabelle
  imports Main "HOL-Library.Word"
begin

section \<open>JavaScript strings\<close>

text \<open>
  A JavaScript string is a sequence of 16-bit code units. String literals of the
  source are written \<open>js ''...''\<close>; code units outside printable ASCII are given
  by their number.
\<close>

type_synonym cu = "16 word"
type_synonym jsstring = "cu list"

definition js :: "string \<Rightarrow> jsstring" where
  "js s = map of_char s"

definition is_upper :: "cu \<Rightarrow> bool" where
  "is_upper c \<longleftrightarrow> 0x41 \<le> c \<and> c \<le> 0x5A"

definition is_lower :: "cu \<Rightarrow> bool" where
  "is_lower c \<longleftrightarrow> 0x61 \<le> c \<and> c \<le> 0x7A"

definition is_digit :: "cu \<Rightarrow> bool" where
  "is_digit c \<longleftrightarrow> 0x30 \<le> c \<and> c \<le> 0x39"

definition ascii_lower :: "cu \<Rightarrow> cu" where
  "ascii_lower c = (if is_upper c then c + 0x20 else c)"

text \<open>
  Matching of an ASCII pattern under the regular-expression flag \<open>i\<close>: the
  canonicalisation of ECMAScript never maps a code unit above 127 to one below 128,
  so an ASCII letter of the pattern matches its two cases and nothing else.
\<close>

definition eq_ci :: "cu \<Rightarrow> cu \<Rightarrow> bool" where
  "eq_ci p c \<longleftrightarrow> ascii_lower p = ascii_lower c"

fun starts_with_ci :: "jsstring \<Rightarrow> jsstring \<Rightarrow> bool" where
  "starts_with_ci [] s = True"
| "starts_with_ci (p # ps) [] = False"
| "starts_with_ci (p # ps) (c # cs) = (eq_ci p c \<and> starts_with_ci ps cs)"

text \<open>White space and line terminators, the class \<open>\s\<close> and what \<open>trim\<close> strips.\<close>

definition is_ws :: "cu \<Rightarrow> bool" where
  "is_ws c \<longleftrightarrow>
     c = 0x09 \<or> c = 0x0A \<or> c = 0x0B \<or> c = 0x0C \<or> c = 0x0D \<or> c = 0x20 \<or>
     c = 0xA0 \<or> c = 0x1680 \<or> (0x2000 \<le> c \<and> c \<le> 0x200A) \<or>
     c = 0x2028 \<or> c = 0x2029 \<or> c = 0x202F \<or> c = 0x205F \<or> c = 0x3000 \<or>
     c = 0xFEFF"

definition trim :: "jsstring \<Rightarrow> jsstring" where
  "trim s = rev (dropWhile is_ws (rev (dropWhile is_ws s)))"

text \<open>\<open>s.split(sep)\<close> for a separator of one code unit, and \<open>xs.join(sep)\<close>.\<close>

fun split_on :: "cu \<Rightarrow> jsstring \<Rightarrow> jsstring list" where
  "split_on sep [] = [[]]"
| "split_on sep (c # cs) =
     (if c = sep then [] # split_on sep cs
      else (case split_on sep cs of
              [] \<Rightarrow> [[c]]
            | x # xs \<Rightarrow> (c # x) # xs))"

fun join :: "jsstring \<Rightarrow> jsstring list \<Rightarrow> jsstring" where
  "join sep [] = []"
| "join sep [x] = x"
| "join sep (x # y # ys) = x @ sep @ join sep (y # ys)"

text \<open>\<open>xs[i]\<close>: reading past the end gives \<open>undefined\<close>, here \<open>None\<close>.\<close>

fun index :: "'a list \<Rightarrow> nat \<Rightarrow> 'a option" where
  "index [] i = None"
| "index (x # xs) 0 = Some x"
| "index (x # xs) (Suc i) = index xs i"

text \<open>\<open>s.includes(t)\<close>.\<close>

definition startsWith :: "jsstring \<Rightarrow> jsstring \<Rightarrow> bool" where
  "startsWith s t \<longleftrightarrow> take (length t) s = t"

fun includes_str :: "jsstring \<Rightarrow> jsstring \<Rightarrow> bool" where
  "includes_str [] t = (t = [])"
| "includes_str (c # cs) t = (startsWith (c # cs) t \<or> includes_str cs t)"

section \<open>\<open>encodeURIComponent\<close> and \<open>decodeURIComponent\<close>\<close>

text \<open>
  Both follow the abstract operations Encode and Decode of ECMAScript. A thrown
  \<open>URIError\<close> is the value \<open>None\<close>.
\<close>

definition is_lead :: "cu \<Rightarrow> bool" where
  "is_lead c \<longleftrightarrow> 0xD800 \<le> c \<and> c \<le> 0xDBFF"

definition is_trail :: "cu \<Rightarrow> bool" where
  "is_trail c \<longleftrightarrow> 0xDC00 \<le> c \<and> c \<le> 0xDFFF"

text \<open>The set left unescaped: letters, digits and \<open>- _ . ! ~ * ' ( )\<close>.\<close>

definition uriUnescaped :: "cu \<Rightarrow> bool" where
  "uriUnescaped c \<longleftrightarrow>
     is_upper c \<or> is_lower c \<or> is_digit c \<or>
     c = 0x2D \<or> c = 0x5F \<or> c = 0x2E \<or> c = 0x21 \<or> c = 0x7E \<or>
     c = 0x2A \<or> c = 0x27 \<or> c = 0x28 \<or> c = 0x29"

definition hexdigit :: "nat \<Rightarrow> cu" where
  "hexdigit n = (if n < 10 then 0x30 + of_nat n else 0x41 + of_nat (n - 10))"

definition hex_escape :: "nat \<Rightarrow> jsstring" where
  "hex_escape b = [0x25, hexdigit (b div 16), hexdigit (b mod 16)]"

definition utf8_encode :: "nat \<Rightarrow> nat list" where
  "utf8_encode cp =
     (if cp < 0x80 then [cp]
      else if cp < 0x800 then [0xC0 + cp div 64, 0x80 + cp mod 64]
      else if cp < 0x10000 then
        [0xE0 + cp div 4096, 0x80 + (cp div 64) mod 64, 0x80 + cp mod 64]
      else
        [0xF0 + cp div 262144, 0x80 + (cp div 4096) mod 64,
         0x80 + (cp div 64) mod 64, 0x80 + cp mod 64])"

definition escape_utf8 :: "nat \<Rightarrow> jsstring" where
  "escape_utf8 cp = concat (map hex_escape (utf8_encode cp))"

definition pair_cp :: "cu \<Rightarrow> cu \<Rightarrow> nat" where
  "pair_cp hi lo = (unat hi - 0xD800) * 0x400 + (unat lo - 0xDC00) + 0x10000"

fun encodeURIComponent :: "jsstring \<Rightarrow> jsstring option" where
  "encodeURIComponent [] = Some []"
| "encodeURIComponent (c # cs) =
     (if uriUnescaped c then map_option ((#) c) (encodeURIComponent cs)
      else if is_trail c then None
      else if is_lead c then
        (case cs of
           [] \<Rightarrow> None
         | d # ds \<Rightarrow>
             if is_trail d
             then map_option ((@) (escape_utf8 (pair_cp c d))) (encodeURIComponent ds)
             else None)
      else map_option ((@) (escape_utf8 (unat c))) (encodeURIComponent cs))"

definition hexval :: "cu \<Rightarrow> nat option" where
  "hexval c =
     (if is_digit c then Some (unat c - 0x30)
      else if 0x41 \<le> c \<and> c \<le> 0x46 then Some (unat c - 0x41 + 10)
      else if 0x61 \<le> c \<and> c \<le> 0x66 then Some (unat c - 0x61 + 10)
      else None)"

text \<open>One escape \<open>%XY\<close> at the front of the string: its octet and the rest.\<close>

fun take_escape :: "jsstring \<Rightarrow> (nat \<times> jsstring) option" where
  "take_escape (p # a # b # rest) =
     (if p = 0x25 then
        (case (hexval a, hexval b) of
           (Some x, Some y) \<Rightarrow> Some (16 * x + y, rest)
         | _ \<Rightarrow> None)
      else None)"
| "take_escape _ = None"

fun take_escapes :: "nat \<Rightarrow> jsstring \<Rightarrow> (nat list \<times> jsstring) option" where
  "take_escapes 0 s = Some ([], s)"
| "take_escapes (Suc n) s =
     (case take_escape s of
        None \<Rightarrow> None
      | Some (b, rest) \<Rightarrow>
          (case take_escapes n rest of
             None \<Rightarrow> None
           | Some (bs, rest') \<Rightarrow> Some (b # bs, rest')))"

text \<open>The number of leading 1 bits of an octet.\<close>

definition leading_ones :: "nat \<Rightarrow> nat" where
  "leading_ones b =
     (if b < 0x80 then 0 else if b < 0xC0 then 1 else if b < 0xE0 then 2
      else if b < 0xF0 then 3 else if b < 0xF8 then 4 else 5)"

definition is_cont :: "nat \<Rightarrow> bool" where
  "is_cont b \<longleftrightarrow> 0x80 \<le> b \<and> b \<le> 0xBF"

text \<open>
  The code point of a well-formed UTF-8 sequence of two to four octets (the table of
  well-formed byte sequences of the Unicode standard: no overlong form, no surrogate,
  nothing above U+10FFFF).
\<close>

fun utf8_decode :: "nat list \<Rightarrow> nat option" where
  "utf8_decode [b0, b1] =
     (if 0xC2 \<le> b0 \<and> b0 \<le> 0xDF \<and> is_cont b1
      then Some ((b0 - 0xC0) * 64 + (b1 - 0x80)) else None)"
| "utf8_decode [b0, b1, b2] =
     (if ((b0 = 0xE0 \<and> 0xA0 \<le> b1 \<and> b1 \<le> 0xBF) \<or>
          (0xE1 \<le> b0 \<and> b0 \<le> 0xEC \<and> is_cont b1) \<or>
          (b0 = 0xED \<and> 0x80 \<le> b1 \<and> b1 \<le> 0x9F) \<or>
          (0xEE \<le> b0 \<and> b0 \<le> 0xEF \<and> is_cont b1)) \<and> is_cont b2
      then Some ((b0 - 0xE0) * 4096 + (b1 - 0x80) * 64 + (b2 - 0x80)) else None)"
| "utf8_decode [b0, b1, b2, b3] =
     (if ((b0 = 0xF0 \<and> 0x90 \<le> b1 \<and> b1 \<le> 0xBF) \<or>
          (0xF1 \<le> b0 \<and> b0 \<le> 0xF3 \<and> is_cont b1) \<or>
          (b0 = 0xF4 \<and> 0x80 \<le> b1 \<and> b1 \<le> 0x8F)) \<and> is_cont b2 \<and> is_cont b3
      then Some ((b0 - 0xF0) * 262144 + (b1 - 0x80) * 4096 + (b2 - 0x80) * 64 + (b3 - 0x80))
      else None)"
| "utf8_decode _ = None"

definition UTF16EncodeCodePoint :: "nat \<Rightarrow> jsstring" where
  "UTF16EncodeCodePoint v =
     (if v \<le> 0xFFFF then [of_nat v]
      else [of_nat ((v - 0x10000) div 0x400 + 0xD800),
            of_nat ((v - 0x10000) mod 0x400 + 0xDC00)])"

function decodeURIComponent :: "jsstring \<Rightarrow> jsstring option" where
  "decodeURIComponent [] = Some []"
| "decodeURIComponent (c # cs) =
     (if c \<noteq> 0x25 then map_option ((#) c) (decodeURIComponent cs)
      else
        (case take_escape (c # cs) of
           None \<Rightarrow> None
         | Some (b, rest) \<Rightarrow>
             if leading_ones b = 0
             then map_option ((#) (of_nat b)) (decodeURIComponent rest)
             else if leading_ones b = 1 \<or> leading_ones b > 4 then None
             else
               (case take_escapes (leading_ones b - 1) rest of
                  None \<Rightarrow> None
                | Some (bs, rest') \<Rightarrow>
                    (case utf8_decode (b # bs) of
                       None \<Rightarrow> None
                     | Some v \<Rightarrow>
                         map_option ((@) (UTF16EncodeCodePoint v))
                           (decodeURIComponent rest')))))"
  by pat_completeness auto
termination
proof -
  have esc: "length r < length s" if "take_escape s = Some (b, r)" for s b r
    using that by (cases s rule: take_escape.cases) (auto split: if_splits option.splits)
  have escs: "length r \<le> length s" if "take_escapes n s = Some (bs, r)" for n s bs r
    using that
  proof (induction n arbitrary: s bs r)
    case 0
    then show ?case by simp
  next
    case (Suc n)
    from Suc.prems obtain b rest bs' where
      e: "take_escape s = Some (b, rest)" and es: "take_escapes n rest = Some (bs', r)"
      by (auto split: option.splits)
    from esc [OF e] Suc.IH [OF es] show ?case by simp
  qed
  show ?thesis
  proof (relation "measure length", goal_cases)
    case 1
    show ?case by simp
  next
    case (2 c cs)
    show ?case by simp
  next
    case (3 c cs x2 x y)
    then have "take_escape (c # cs) = Some (x, y)" by simp
    from esc [OF this] show ?case by simp
  next
    case (4 c cs x2 x y x2a xa ya x2b)
    then have "take_escape (c # cs) = Some (x, y)"
      and "take_escapes (leading_ones x - 1) y = Some (xa, ya)" by simp_all
    from esc [OF this(1)] escs [OF this(2)] show ?case by simp
  qed
qed


text \<open>A string without unpaired surrogates: what \<open>encodeURIComponent\<close> accepts.\<close>

fun wf_utf16 :: "jsstring \<Rightarrow> bool" where
  "wf_utf16 [] = True"
| "wf_utf16 (c # cs) =
     (if is_lead c then (case cs of [] \<Rightarrow> False | d # ds \<Rightarrow> is_trail d \<and> wf_utf16 ds)
      else \<not> is_trail c \<and> wf_utf16 cs)"

section \<open>The platform\<close>

text \<open>
  The worker runs on a platform that supplies the URL parser, the network and the
  streaming HTML parser. They are parameters of the model: every function that uses
  one takes the platform \<open>P\<close>, and the theorems hold for every platform.

  A \<open>url\<close> holds the properties of a URL object that the worker reads;
  \<open>toString()\<close> is \<open>href\<close>. \<open>new_URL P input base\<close> is \<open>new URL(input, base)\<close>,
  with the base already converted to a string; \<open>None\<close> is the thrown \<open>TypeError\<close>.
\<close>

record url =
  href :: jsstring
  protocol :: jsstring
  host :: jsstring
  origin :: jsstring
  pathname :: jsstring

type_synonym headers = "(jsstring \<times> jsstring) list"

datatype redirect_mode = Follow | Error | Manual

record request =
  req_url :: jsstring
  req_method :: jsstring
  req_headers :: headers
  req_body :: "jsstring option"
  req_redirect :: redirect_mode

text \<open>
  A body is identified with the text it holds; \<open>None\<close> is the null body. The status
  text of a response is not modelled.
\<close>

record response =
  res_status :: nat
  res_headers :: headers
  res_body :: "jsstring option"

text \<open>An element seen by a handler of the HTML rewriter: its attributes.\<close>

type_synonym element = "(jsstring \<times> jsstring) list"

text \<open>
  \<open>Request_rejects P url method\<close>: the \<open>Request\<close> constructor throws for this URL and
  method. \<open>fetch P r = None\<close>: the fetch throws. \<open>HTMLRewriter P hs html\<close> is the
  text of the document \<open>html\<close> after the rewriter has run the element handlers
  \<open>hs\<close>, each registered under its selector.
\<close>

record platform =
  new_URL :: "jsstring \<Rightarrow> jsstring option \<Rightarrow> url option"
  Request_rejects :: "jsstring \<Rightarrow> jsstring \<Rightarrow> bool"
  fetch :: "request \<Rightarrow> response option"
  HTMLRewriter :: "(jsstring \<times> (element \<Rightarrow> element)) list \<Rightarrow> jsstring \<Rightarrow> jsstring"

text \<open>The test \<open>/^https?:\/\//i.test(s)\<close>.\<close>

definition test_http_scheme :: "jsstring \<Rightarrow> bool" where
  "test_http_scheme s \<longleftrightarrow>
     starts_with_ci (js ''http://'') s \<or> starts_with_ci (js ''https://'') s"

section \<open>Header rewriting\<close>

text \<open>
  \<open>s.replace(re, f)\<close> for a regular expression without the flag \<open>g\<close>: the leftmost
  match is replaced. \<open>m s\<close> is the length of the match of the expression at the
  front of \<open>s\<close>, if there is one.
\<close>

fun replace_first :: "(jsstring \<Rightarrow> nat option) \<Rightarrow> (jsstring \<Rightarrow> jsstring) \<Rightarrow> jsstring \<Rightarrow> jsstring" where
  "replace_first m f [] = []"
| "replace_first m f (c # cs) =
     (case m (c # cs) of
        Some n \<Rightarrow> f (take n (c # cs)) @ drop n (c # cs)
      | None \<Rightarrow> c # replace_first m f cs)"

text \<open>
  The match of \<open>/;?\s*Domain=[^;]+/i\<close> at the front of a string. Every quantifier is
  greedy and none has to give back: after \<open>\s*\<close> comes a letter, which is no white
  space, and when the optional semicolon is there, skipping it leaves the letter
  facing the semicolon.
\<close>

definition match_domain :: "jsstring \<Rightarrow> nat option" where
  "match_domain s =
     (let s1 = (case s of [] \<Rightarrow> [] | c # cs \<Rightarrow> if c = 0x3B then cs else s);
          s2 = dropWhile is_ws s1
      in if starts_with_ci (js ''Domain='') s2 then
           (let v = takeWhile (\<lambda>c. c \<noteq> 0x3B) (drop 7 s2)
            in if v = [] then None
               else Some (length s - length s2 + 7 + length v))
         else None)"

definition rewriteSetCookie :: "jsstring \<Rightarrow> jsstring" where
  "rewriteSetCookie cookieStr = replace_first match_domain (\<lambda>_. []) cookieStr"

definition rewriteLocation :: "platform \<Rightarrow> jsstring \<Rightarrow> url \<Rightarrow> jsstring \<Rightarrow> jsstring" where
  "rewriteLocation P location target proxyOrigin =
     (case new_URL P location (Some (href target)) of
        None \<Rightarrow> location
      | Some absoluteUrl \<Rightarrow>
          (case encodeURIComponent (href absoluteUrl) of
             None \<Rightarrow> location
           | Some encodedUrl \<Rightarrow> proxyOrigin @ js ''/proxy/'' @ encodedUrl))"

section \<open>Element rewriting\<close>

definition rewriteAttributeValue :: "platform \<Rightarrow> jsstring \<Rightarrow> url \<Rightarrow> jsstring" where
  "rewriteAttributeValue P attrValue target =
     (case new_URL P attrValue (Some (href target)) of
        None \<Rightarrow> attrValue
      | Some u \<Rightarrow>
          if \<not> test_http_scheme (href u) then attrValue
          else
            (case encodeURIComponent (href u) of
               None \<Rightarrow> attrValue
             | Some encodedUrl \<Rightarrow> js ''/proxy/'' @ encodedUrl))"

definition getAttribute :: "element \<Rightarrow> jsstring \<Rightarrow> jsstring option" where
  "getAttribute el name = map_of el name"

fun setAttribute :: "element \<Rightarrow> jsstring \<Rightarrow> jsstring \<Rightarrow> element" where
  "setAttribute [] name v = [(name, v)]"
| "setAttribute ((n, x) # el) name v =
     (if n = name then (n, v) # el else (n, x) # setAttribute el name v)"

text \<open>\<open>if (val)\<close> holds for a string that is neither \<open>null\<close> nor empty.\<close>

definition rewriteAttr :: "platform \<Rightarrow> element \<Rightarrow> jsstring \<Rightarrow> url \<Rightarrow> element" where
  "rewriteAttr P el attrName target =
     (case getAttribute el attrName of
        None \<Rightarrow> el
      | Some val \<Rightarrow>
          if val = [] then el
          else setAttribute el attrName (rewriteAttributeValue P val target))"

text \<open>
  The handler of \<open>meta[http-equiv="refresh"]\<close>. No code unit outside ASCII has a
  lower case that starts with one of \<open>u r l =\<close>, so
  \<open>urlPart.toLowerCase().startsWith('url=')\<close> is the comparison of the first four code
  units without regard to ASCII case.
\<close>

definition metaRefresh :: "platform \<Rightarrow> element \<Rightarrow> url \<Rightarrow> element" where
  "metaRefresh P el target =
     (case getAttribute el (js ''content'') of
        None \<Rightarrow> el
      | Some content \<Rightarrow>
          if content = [] then el
          else
            (case split_on 0x3B content of
               [part0, part1] \<Rightarrow>
                 (let urlPart = trim part1
                  in if starts_with_ci (js ''url='') urlPart then
                       (let urlValue = drop 4 urlPart;
                            newUrl = rewriteAttributeValue P urlValue target
                        in setAttribute el (js ''content'') (part0 @ js ''; url='' @ newUrl))
                     else el)
             | _ \<Rightarrow> el))"

text \<open>
  The chain of \<open>.on(selector, handler)\<close> in \<open>applyHTMLRewriter\<close>: each element handler
  with the selector it is registered under. The platform runs a handler on the
  elements that its selector matches.
\<close>

definition elementHandlers :: "platform \<Rightarrow> url \<Rightarrow> (jsstring \<times> (element \<Rightarrow> element)) list" where
  \<open>elementHandlers P target =
     [(js ''a'', \<lambda>el. rewriteAttr P el (js ''href'') target),
      (js ''img'', \<lambda>el. rewriteAttr P el (js ''src'') target),
      (js ''link'', \<lambda>el. rewriteAttr P el (js ''href'') target),
      (js ''script'', \<lambda>el. rewriteAttr P el (js ''src'') target),
      (js ''form'', \<lambda>el. rewriteAttr P el (js ''action'') target),
      (js ''base'', \<lambda>el. rewriteAttr P el (js ''href'') target),
      (js ''meta[http-equiv="refresh"]'', \<lambda>el. metaRefresh P el target)]\<close>

definition applyHTMLRewriter :: "platform \<Rightarrow> jsstring \<Rightarrow> url \<Rightarrow> jsstring" where
  "applyHTMLRewriter P html target = HTMLRewriter P (elementHandlers P target) html"


section \<open>Inline script rewriting\<close>

text \<open>
  \<open>s.replace(re, f)\<close> for a regular expression with the flag \<open>g\<close> and a callback.
  \<open>m s\<close> describes the match at the front of \<open>s\<close>: its length, which is positive,
  and what the callback returns for it (\<open>None\<close> when the callback throws, and then the
  whole call throws). The search goes on behind each match; the number counts the
  code units of the current match still to be passed over.
\<close>

fun replace_all :: "(jsstring \<Rightarrow> (nat \<times> jsstring option) option) \<Rightarrow> nat \<Rightarrow> jsstring \<Rightarrow> jsstring option" where
  "replace_all m k [] = Some []"
| "replace_all m (Suc k) (c # cs) = replace_all m k cs"
| "replace_all m 0 (c # cs) =
     (case m (c # cs) of
        None \<Rightarrow> map_option ((#) c) (replace_all m 0 cs)
      | Some (n, None) \<Rightarrow> None
      | Some (n, Some r) \<Rightarrow> map_option ((@) r) (replace_all m (n - 1) cs))"

fun replace_each :: "(jsstring \<Rightarrow> (nat \<times> jsstring option) option) list \<Rightarrow> jsstring \<Rightarrow> jsstring option" where
  "replace_each [] html = Some html"
| "replace_each (m # ms) html =
     (case replace_all m 0 html of
        None \<Rightarrow> None
      | Some html' \<Rightarrow> replace_each ms html')"

definition is_quote :: "cu \<Rightarrow> bool" where
  "is_quote c \<longleftrightarrow> c = 0x27 \<or> c = 0x22"

text \<open>
  The first group of the eight expressions, for instance \<open>(window\.location\s*=\s*)\<close>:
  a name, without regard to case, and \<open>=\<close> or \<open>(\<close> between optional white space.
  The result is the length of the group.
\<close>

definition match_prefix :: "jsstring \<Rightarrow> cu \<Rightarrow> jsstring \<Rightarrow> nat option" where
  "match_prefix name sep s =
     (if starts_with_ci name s then
        (case dropWhile is_ws (drop (length name) s) of
           [] \<Rightarrow> None
         | c # s3 \<Rightarrow>
             if c = sep then Some (length s - length (dropWhile is_ws s3)) else None)
      else None)"

text \<open>The third group of the absolute expressions, \<open>(https?:\/\/[^'"]+)\<close>.\<close>

definition match_absolute :: "jsstring \<Rightarrow> nat option" where
  "match_absolute s =
     (if starts_with_ci (js ''http'') s then
        (let s1 = drop 4 s;
             s2 = (case s1 of [] \<Rightarrow> [] | c # cs \<Rightarrow> if eq_ci 0x73 c then cs else s1)
         in if startsWith s2 (js ''://'') then
              (let v = takeWhile (\<lambda>c. \<not> is_quote c) (drop 3 s2)
               in if v = [] then None
                  else Some (length s - length s2 + 3 + length v))
            else None)
      else None)"

text \<open>The third group of the relative expressions, \<open>(\/[^'"]+)\<close>.\<close>

definition match_relative :: "jsstring \<Rightarrow> nat option" where
  "match_relative s =
     (case s of
        [] \<Rightarrow> None
      | c # cs \<Rightarrow>
          if c = 0x2F then
            (let v = takeWhile (\<lambda>c. \<not> is_quote c) cs
             in if v = [] then None else Some (1 + length v))
          else None)"

text \<open>
  The match of a whole expression at the front of \<open>s\<close>: the three groups
  \<open>(prefix, quote, url)\<close>. The match is the three of them one after the other.
\<close>

definition match_groups :: "jsstring \<Rightarrow> cu \<Rightarrow> (jsstring \<Rightarrow> nat option) \<Rightarrow> jsstring \<Rightarrow> (jsstring \<times> cu \<times> jsstring) option" where
  "match_groups name sep lit s =
     (case match_prefix name sep s of
        None \<Rightarrow> None
      | Some n \<Rightarrow>
          (case drop n s of
             [] \<Rightarrow> None
           | q # r \<Rightarrow>
               if is_quote q then
                 (case lit r of
                    None \<Rightarrow> None
                  | Some k \<Rightarrow> Some (take n s, q, take k r))
               else None))"

definition navigation_shapes :: "(jsstring \<times> cu) list" where
  "navigation_shapes =
     [(js ''window.location'', 0x3D),
      (js ''location.href'', 0x3D),
      (js ''window.open'', 0x28),
      (js ''document.location'', 0x3D)]"

definition absolutePattern :: "jsstring \<Rightarrow> jsstring \<times> cu \<Rightarrow> jsstring \<Rightarrow> (nat \<times> jsstring option) option" where
  "absolutePattern proxyOrigin shape s =
     (case match_groups (fst shape) (snd shape) match_absolute s of
        None \<Rightarrow> None
      | Some (prefix, quote, origUrl) \<Rightarrow>
          Some (length prefix + 1 + length origUrl,
            (case encodeURIComponent origUrl of
               None \<Rightarrow> None
             | Some e \<Rightarrow>
                 (let newUrl = proxyOrigin @ js ''/proxy/'' @ e
                  in Some (prefix @ [quote] @ newUrl @ [quote])))))"

definition relativePattern :: "platform \<Rightarrow> url \<Rightarrow> jsstring \<Rightarrow> jsstring \<times> cu \<Rightarrow> jsstring \<Rightarrow> (nat \<times> jsstring option) option" where
  "relativePattern P target proxyOrigin shape s =
     (case match_groups (fst shape) (snd shape) match_relative s of
        None \<Rightarrow> None
      | Some (prefix, quote, origPath) \<Rightarrow>
          (let match = prefix @ [quote] @ origPath
           in Some (length match,
                (case new_URL P origPath (Some (href target)) of
                   None \<Rightarrow> Some match
                 | Some absoluteUrl \<Rightarrow>
                     (case encodeURIComponent (href absoluteUrl) of
                        None \<Rightarrow> Some match
                      | Some e \<Rightarrow>
                          (let newUrl = proxyOrigin @ js ''/proxy/'' @ e
                           in Some (prefix @ [quote] @ newUrl @ [quote])))))))"

definition rewriteInlineJS :: "platform \<Rightarrow> jsstring \<Rightarrow> url \<Rightarrow> jsstring \<Rightarrow> jsstring option" where
  "rewriteInlineJS P html target proxyOrigin =
     (case replace_each (map (absolutePattern proxyOrigin) navigation_shapes) html of
        None \<Rightarrow> None
      | Some html' \<Rightarrow>
          replace_each (map (relativePattern P target proxyOrigin) navigation_shapes) html')"

section \<open>The injected script\<close>

definition fakeEnvScript :: "jsstring \<Rightarrow> jsstring \<Rightarrow> jsstring \<Rightarrow> jsstring \<Rightarrow> jsstring" where
  \<open>fakeEnvScript fakeHost fakeOrigin fakeProtocol proxyOrigin = concat
    [js ''\<newline>'',
     js ''<script>\<newline>'',
     js ''(function(){\<newline>'',
     js ''  // '' @ [0x4F2A, 0x9020] @ js ''window.location'' @ [0x5173, 0x952E, 0x5C5E, 0x6027] @ js ''\<newline>'',
     js ''  Object.defineProperty(window.location, \'hostname\', { get: () => "'' @ fakeHost @ js ''" });\<newline>'',
     js ''  Object.defineProperty(window.location, \'host\', { get: () => "'' @ fakeHost @ js ''" });\<newline>'',
     js ''  Object.defineProperty(window.location, \'origin\', { get: () => "'' @ fakeOrigin @ js ''" });\<newline>'',
     js ''  Object.defineProperty(window.location, \'protocol\', { get: () => "'' @ fakeProtocol @ js ''" });\<newline>'',
     js ''\<newline>'',
     js ''  // '' @ [0x4F2A, 0x9020] @ js ''document.domain'' @ [0x8BBF, 0x95EE] @ js ''\<newline>'',
     js ''  Object.defineProperty(document, \'domain\', {\<newline>'',
     js ''    get: () => "'' @ fakeHost @ js ''",\<newline>'',
     js ''    set: () => {}\<newline>'',
     js ''  });\<newline>'',
     js ''\<newline>'',
     js ''  // '' @ [0x52AB, 0x6301] @ js ''document.cookie'' @ [0x8BBF, 0x95EE] @ js ''\<newline>'',
     js ''  const originalCookieDescriptor = Object.getOwnPropertyDescriptor(Document.prototype, \'cookie\') ||\<newline>'',
     js ''    Object.getOwnPropertyDescriptor(HTMLDocument.prototype, \'cookie\');\<newline>'',
     js ''\<newline>'',
     js ''  Object.defineProperty(document, \'cookie\', {\<newline>'',
     js ''    get() {\<newline>'',
     js ''      return originalCookieDescriptor.get.call(document);\<newline>'',
     js ''    },\<newline>'',
     js ''    set(value) {\<newline>'',
     js ''      return originalCookieDescriptor.set.call(document, value);\<newline>'',
     js ''    }\<newline>'',
     js ''  });\<newline>'',
     js ''\<newline>'',
     js ''  // '' @ [0x62E6, 0x622A] @ js ''window.location.assign'' @ [0x548C] @ js ''replace\<newline>'',
     js ''  const originalAssign = window.location.assign;\<newline>'',
     js ''  window.location.assign = function(url) {\<newline>'',
     js ''    if (typeof url === \'string\') {\<newline>'',
     js ''      const newUrl = "'' @ proxyOrigin @ js ''/proxy/" + encodeURIComponent(new URL(url, window.location.origin).toString());\<newline>'',
     js ''      return originalAssign.call(window.location, newUrl);\<newline>'',
     js ''    }\<newline>'',
     js ''    return originalAssign.call(window.location, url);\<newline>'',
     js ''  };\<newline>'',
     js ''\<newline>'',
     js ''  const originalReplace = window.location.replace;\<newline>'',
     js ''  window.location.replace = function(url) {\<newline>'',
     js ''    if (typeof url === \'string\') {\<newline>'',
     js ''      const newUrl = "'' @ proxyOrigin @ js ''/proxy/" + encodeURIComponent(new URL(url, window.location.origin).toString());\<newline>'',
     js ''      return originalReplace.call(window.location, newUrl);\<newline>'',
     js ''    }\<newline>'',
     js ''    return originalReplace.call(window.location, url);\<newline>'',
     js ''  };\<newline>'',
     js ''\<newline>'',
     js ''  // '' @ [0x62E6, 0x622A] @ js ''history.pushState'' @ [0x548C] @ js ''replaceState\<newline>'',
     js ''  const originalPushState = history.pushState;\<newline>'',
     js ''  history.pushState = function(state, title, url) {\<newline>'',
     js ''    if (typeof url === \'string\') {\<newline>'',
     js ''      const newUrl = "/proxy/" + encodeURIComponent(new URL(url, window.location.origin).toString());\<newline>'',
     js ''      return originalPushState.call(history, state, title, newUrl);\<newline>'',
     js ''    }\<newline>'',
     js ''    return originalPushState.call(history, state, title, url);\<newline>'',
     js ''  };\<newline>'',
     js ''\<newline>'',
     js ''  const originalReplaceState = history.replaceState;\<newline>'',
     js ''  history.replaceState = function(state, title, url) {\<newline>'',
     js ''    if (typeof url === \'string\') {\<newline>'',
     js ''      const newUrl = "/proxy/" + encodeURIComponent(new URL(url, window.location.origin).toString());\<newline>'',
     js ''      return originalReplaceState.call(history, state, title, newUrl);\<newline>'',
     js ''    }\<newline>'',
     js ''    return originalReplaceState.call(history, state, title, url);\<newline>'',
     js ''  };\<newline>'',
     js ''})();\<newline>'',
     js ''</script>\<newline>'',
     js ''  '']\<close>

text \<open>
  \<open>GetSubstitution\<close> for a replacement given as a string, when the expression has no
  capture group: \<open>$$\<close> is a dollar sign, \<open>$&\<close> the match, \<open>$`\<close> the text before it and
  \<open>$'\<close> the text after it; every other dollar sign stands for itself.
\<close>

fun GetSubstitution :: "jsstring \<Rightarrow> jsstring \<Rightarrow> jsstring \<Rightarrow> jsstring \<Rightarrow> jsstring" where
  "GetSubstitution matched preceding following (c # d # r) =
     (if c = 0x24 \<and> d = 0x24 then 0x24 # GetSubstitution matched preceding following r
      else if c = 0x24 \<and> d = 0x26 then matched @ GetSubstitution matched preceding following r
      else if c = 0x24 \<and> d = 0x60 then preceding @ GetSubstitution matched preceding following r
      else if c = 0x24 \<and> d = 0x27 then following @ GetSubstitution matched preceding following r
      else c # GetSubstitution matched preceding following (d # r))"
| "GetSubstitution matched preceding following r = r"

text \<open>
  \<open>s.replace(re, t)\<close> for a regular expression without the flag \<open>g\<close> and a
  replacement string \<open>t\<close>; \<open>preceding\<close> is the text already passed.
\<close>

fun replace_first_str :: "(jsstring \<Rightarrow> nat option) \<Rightarrow> jsstring \<Rightarrow> jsstring \<Rightarrow> jsstring \<Rightarrow> jsstring" where
  "replace_first_str m t preceding [] = preceding"
| "replace_first_str m t preceding (c # cs) =
     (case m (c # cs) of
        Some n \<Rightarrow>
          preceding @ GetSubstitution (take n (c # cs)) preceding (drop n (c # cs)) t
            @ drop n (c # cs)
      | None \<Rightarrow> replace_first_str m t (preceding @ [c]) cs)"

text \<open>The match of \<open>/<\/head>/i\<close> at the front of a string.\<close>

definition match_head_close :: "jsstring \<Rightarrow> nat option" where
  "match_head_close s = (if starts_with_ci (js ''</head>'') s then Some 7 else None)"

text \<open>\<open>a || b\<close> on strings: the empty string is the only falsy one.\<close>

definition injectFakeEnvScript :: "jsstring \<Rightarrow> url \<Rightarrow> jsstring \<Rightarrow> jsstring" where
  "injectFakeEnvScript html target proxyOrigin =
     (let script = fakeEnvScript (host target) (origin target) (protocol target) proxyOrigin;
          replaced = replace_first_str match_head_close (script @ js ''</head>'') [] html
      in if replaced \<noteq> [] then replaced else script @ html)"


section \<open>Headers and responses\<close>

text \<open>
  A \<open>Headers\<close> object is the list of its name and value pairs; names are compared
  without regard to case, and a value is stored without leading and trailing HTTP
  white space. \<open>get\<close> joins the values of a name with a comma and a space.
\<close>

definition header_name_eq :: "jsstring \<Rightarrow> jsstring \<Rightarrow> bool" where
  "header_name_eq a b \<longleftrightarrow> map ascii_lower a = map ascii_lower b"

definition is_http_ws :: "cu \<Rightarrow> bool" where
  "is_http_ws c \<longleftrightarrow> c = 0x09 \<or> c = 0x0A \<or> c = 0x0D \<or> c = 0x20"

definition normalize_value :: "jsstring \<Rightarrow> jsstring" where
  "normalize_value v = rev (dropWhile is_http_ws (rev (dropWhile is_http_ws v)))"

definition headers_has :: "headers \<Rightarrow> jsstring \<Rightarrow> bool" where
  "headers_has hs name \<longleftrightarrow> list_ex (\<lambda>h. header_name_eq (fst h) name) hs"

definition headers_getAll :: "headers \<Rightarrow> jsstring \<Rightarrow> jsstring list" where
  "headers_getAll hs name = map snd (filter (\<lambda>h. header_name_eq (fst h) name) hs)"

definition headers_get :: "headers \<Rightarrow> jsstring \<Rightarrow> jsstring option" where
  "headers_get hs name =
     (case headers_getAll hs name of
        [] \<Rightarrow> None
      | v # vs \<Rightarrow> Some (join (js '', '') (v # vs)))"

definition headers_delete :: "headers \<Rightarrow> jsstring \<Rightarrow> headers" where
  "headers_delete hs name = filter (\<lambda>h. \<not> header_name_eq (fst h) name) hs"

definition headers_append :: "headers \<Rightarrow> jsstring \<Rightarrow> jsstring \<Rightarrow> headers" where
  "headers_append hs name v = hs @ [(name, normalize_value v)]"

fun headers_set :: "headers \<Rightarrow> jsstring \<Rightarrow> jsstring \<Rightarrow> headers" where
  "headers_set [] name v = [(name, normalize_value v)]"
| "headers_set (h # hs) name v =
     (if header_name_eq (fst h) name
      then (fst h, normalize_value v) # headers_delete hs name
      else h # headers_set hs name v)"

text \<open>
  \<open>new Response(body, {status, headers})\<close>: a \<open>RangeError\<close> for a status outside 200
  to 599, a \<open>TypeError\<close> for a body together with a null body status. Either is
  \<open>None\<close>.
\<close>

definition null_body_status :: "nat \<Rightarrow> bool" where
  "null_body_status st \<longleftrightarrow> st = 101 \<or> st = 103 \<or> st = 204 \<or> st = 205 \<or> st = 304"

definition new_Response :: "jsstring option \<Rightarrow> nat \<Rightarrow> headers \<Rightarrow> response option" where
  "new_Response b st hs =
     (if st < 200 \<or> 599 < st then None
      else if b \<noteq> None \<and> null_body_status st then None
      else Some \<lparr>res_status = st, res_headers = hs, res_body = b\<rparr>)"

text \<open>A body given as a string brings its content type when the headers have none.\<close>

definition new_Response_text :: "jsstring \<Rightarrow> nat \<Rightarrow> headers \<Rightarrow> response option" where
  "new_Response_text s st hs =
     new_Response (Some s) st
       (if headers_has hs (js ''Content-Type'') then hs
        else headers_append hs (js ''content-type'') (js ''text/plain;charset=UTF-8''))"

text \<open>\<open>response.text()\<close>.\<close>

definition text_of :: "response \<Rightarrow> jsstring" where
  "text_of r = (case res_body r of None \<Rightarrow> [] | Some s \<Rightarrow> s)"

definition applyHTMLRewriter_response :: "platform \<Rightarrow> response \<Rightarrow> url \<Rightarrow> response" where
  "applyHTMLRewriter_response P r target =
     r\<lparr>res_body := Some (applyHTMLRewriter P (text_of r) target)\<rparr>"

section \<open>The request handler\<close>

text \<open>
  Lines 15 to 30 of \<open>handleRequest\<close>: the target URL of the encoded rest of the path.
  \<open>None\<close> is an exception caught there, which ends the request with status 400.
\<close>

definition decodeTarget :: "platform \<Rightarrow> jsstring \<Rightarrow> jsstring option" where
  "decodeTarget P encodedUrl =
     (if encodedUrl \<noteq> [] then
        (case decodeURIComponent encodedUrl of
           None \<Rightarrow> None
         | Some decoded \<Rightarrow>
             (let targetUrl =
                    (if \<not> test_http_scheme decoded then js ''https://'' @ decoded else decoded)
              in case new_URL P targetUrl None of
                   None \<Rightarrow> None
                 | Some _ \<Rightarrow> Some targetUrl))
      else Some (js ''https://www.google.com''))"

text \<open>
  Lines 47 to 68: the headers of \<open>modifiedResponse\<close> after the rewriting of
  \<open>Set-Cookie\<close> and \<open>Location\<close> and the removal of the security headers.
\<close>

definition transformHeaders :: "platform \<Rightarrow> response \<Rightarrow> url \<Rightarrow> jsstring \<Rightarrow> headers" where
  "transformHeaders P response target proxyOrigin =
     (let h0 = res_headers response;
          h1 = (if headers_has h0 (js ''Set-Cookie'') then
                  (let cookies = map rewriteSetCookie (headers_getAll h0 (js ''Set-Cookie''))
                   in foldl (\<lambda>h cookie. headers_append h (js ''Set-Cookie'') cookie)
                        (headers_delete h0 (js ''Set-Cookie'')) cookies)
                else h0);
          h2 = (if headers_has h0 (js ''Location'') then
                  (case headers_get h0 (js ''Location'') of
                     None \<Rightarrow> h1
                   | Some location \<Rightarrow>
                       headers_set h1 (js ''Location'')
                         (rewriteLocation P location target proxyOrigin))
                else h1)
      in headers_delete
           (headers_delete
              (headers_delete h2 (js ''Content-Security-Policy''))
              (js ''X-Frame-Options''))
           (js ''X-Content-Type-Options''))"

text \<open>
  Lines 47 to 91, the body of the second \<open>try\<close> once the fetch has returned.
  \<open>None\<close> is an exception, which the \<open>catch\<close> turns into status 500.
\<close>

definition respond :: "platform \<Rightarrow> response \<Rightarrow> url \<Rightarrow> jsstring \<Rightarrow> response option" where
  "respond P response target proxyOrigin =
     (case new_Response (res_body response) (res_status response) (res_headers response) of
        None \<Rightarrow> None
      | Some copied \<Rightarrow>
          (let modifiedResponse =
                 copied\<lparr>res_headers := transformHeaders P response target proxyOrigin\<rparr>;
               contentType =
                 (case headers_get (res_headers response) (js ''Content-Type'') of
                    None \<Rightarrow> []
                  | Some c \<Rightarrow> c)
           in if includes_str contentType (js ''text/html'') then
                (case new_Response_text (text_of modifiedResponse) 200
                        [(js ''Content-Type'', js ''text/html'')] of
                   None \<Rightarrow> None
                 | Some intermediateResponse \<Rightarrow>
                     (case rewriteInlineJS P
                             (text_of (applyHTMLRewriter_response P intermediateResponse target))
                             target proxyOrigin of
                        None \<Rightarrow> None
                      | Some html \<Rightarrow>
                          new_Response_text (injectFakeEnvScript html target proxyOrigin)
                            (res_status modifiedResponse) (res_headers modifiedResponse)))
              else Some modifiedResponse))"

datatype outcome = Responded response | Uncaught

definition returned :: "response option \<Rightarrow> outcome" where
  "returned r = (case r of None \<Rightarrow> Uncaught | Some x \<Rightarrow> Responded x)"

definition message_501 :: jsstring where
  "message_501 =
     [0x975E, 0x6CD5, 0x8BBF, 0x95EE, 0xFF0C, 0x8DEF, 0x5F84, 0x683C, 0x5F0F, 0x5E94, 0x4E3A]
       @ js '' /proxy/<encoded-url>''"

text \<open>
  Lines 6 to 43: the handler up to the fetch. It either ends early, with a response
  or with an exception that leaves the handler (\<open>Uncaught\<close>), or it has the URL of
  the request, the target and the request to send.
\<close>

definition error_500 :: "response option" where
  "error_500 = new_Response_text (js ''Error fetching the target site.'') 500 []"

definition prepare :: "platform \<Rightarrow> request \<Rightarrow> outcome + (url \<times> url \<times> request)" where
  "prepare P request =
     (case new_URL P (req_url request) None of
        None \<Rightarrow> Inl Uncaught
      | Some url \<Rightarrow>
          (let pathSegments = split_on 0x2F (pathname url)
           in if index pathSegments 1 \<noteq> Some (js ''proxy'') then
                Inl (returned (new_Response_text message_501 501 []))
              else
                (let encodedUrl = join (js ''/'') (drop 2 pathSegments)
                 in case decodeTarget P encodedUrl of
                      None \<Rightarrow> Inl (returned (new_Response_text (js ''Invalid URL'') 400 []))
                    | Some targetUrl \<Rightarrow>
                        (case new_URL P targetUrl None of
                           None \<Rightarrow> Inl Uncaught
                         | Some target \<Rightarrow>
                             (let requestHeaders =
                                    headers_set (req_headers request) (js ''Host'') (host target);
                                  m = req_method request
                              in if Request_rejects P (href target) m then Inl Uncaught
                                 else
                                   Inr (url, target,
                                     \<lparr>req_url = href target,
                                      req_method = m,
                                      req_headers = requestHeaders,
                                      req_body =
                                        (if m \<noteq> js ''GET'' \<and> m \<noteq> js ''HEAD''
                                         then req_body request else None),
                                      req_redirect = Manual\<rparr>))))))"

text \<open>
  The handler: what it answers, and the requests it has passed to \<open>fetch\<close>. An
  exception in the fetch or after it is caught and answered with status 500.
\<close>

definition handleRequest :: "platform \<Rightarrow> request \<Rightarrow> outcome \<times> request list" where
  "handleRequest P request =
     (case prepare P request of
        Inl out \<Rightarrow> (out, [])
      | Inr (url, target, modifiedRequest) \<Rightarrow>
          (case fetch P modifiedRequest of
             None \<Rightarrow> (returned error_500, [modifiedRequest])
           | Some response \<Rightarrow>
               (case respond P response target (origin url) of
                  None \<Rightarrow> (returned error_500, [modifiedRequest])
                | Some r \<Rightarrow> (Responded r, [modifiedRequest]))))"

text \<open>
  The proxy path of a URL, as \<open>rewriteAttributeValue\<close> builds it (lines 180 and 181),
  and the target that \<open>handleRequest\<close> reads from a path (lines 9 to 30); \<open>None\<close>
  when it answers with status 501 or 400 instead.
\<close>

definition Encode :: "jsstring \<Rightarrow> jsstring option" where
  "Encode u = map_option ((@) (js ''/proxy/'')) (encodeURIComponent u)"

definition Decode :: "platform \<Rightarrow> jsstring \<Rightarrow> jsstring option" where
  "Decode P p =
     (let pathSegments = split_on 0x2F p
      in if index pathSegments 1 \<noteq> Some (js ''proxy'') then None
         else decodeTarget P (join (js ''/'') (drop 2 pathSegments)))"

definition is_ascii :: "jsstring \<Rightarrow> bool" where
  "is_ascii s \<longleftrightarrow> list_all (\<lambda>c. c < 0x80) s"

section \<open>A URL parser for the examples\<close>

text \<open>
  The theorems about the worker hold for every platform. Its examples are evaluated
  with \<open>parse_URL\<close>, which follows the URL Standard on ASCII input made of a scheme,
  a host name with an optional port, a path, a query and a fragment, absolute or
  relative to a base with the scheme \<open>http\<close> or \<open>https\<close>. It leaves out what such
  input does not need: credentials, percent-encoding, backslashes, internationalised
  and numeric hosts, and the scheme \<open>file\<close>.
\<close>

datatype url_path = Opaque jsstring | Segments "jsstring list"

record url_record =
  scheme :: jsstring
  authority :: "jsstring option"
  path :: url_path
  query :: "jsstring option"
  fragment :: "jsstring option"

text \<open>The text before the first \<open>c\<close>, and the text after it if there is one.\<close>

definition cut_at :: "cu \<Rightarrow> jsstring \<Rightarrow> jsstring \<times> jsstring option" where
  "cut_at c s =
     (takeWhile (\<lambda>x. x \<noteq> c) s,
      case dropWhile (\<lambda>x. x \<noteq> c) s of [] \<Rightarrow> None | _ # r \<Rightarrow> Some r)"

definition is_scheme_char :: "cu \<Rightarrow> bool" where
  "is_scheme_char c \<longleftrightarrow>
     is_upper c \<or> is_lower c \<or> is_digit c \<or> c = 0x2B \<or> c = 0x2D \<or> c = 0x2E"

definition split_scheme :: "jsstring \<Rightarrow> (jsstring \<times> jsstring) option" where
  "split_scheme s =
     (case cut_at 0x3A s of
        (c # cs, Some r) \<Rightarrow>
          if (is_upper c \<or> is_lower c) \<and> list_all is_scheme_char cs
          then Some (map ascii_lower (c # cs), r) else None
      | _ \<Rightarrow> None)"

definition is_special :: "jsstring \<Rightarrow> bool" where
  "is_special s \<longleftrightarrow> s = js ''http'' \<or> s = js ''https''"

text \<open>The path state: \<open>.\<close> and \<open>..\<close> are resolved as the segments are read.\<close>

fun path_segments :: "jsstring list \<Rightarrow> jsstring list \<Rightarrow> jsstring list" where
  "path_segments out [] = out"
| "path_segments out [seg] =
     (if seg = js ''..'' then butlast out @ [[]]
      else if seg = js ''.'' then out @ [[]]
      else out @ [seg])"
| "path_segments out (seg # rest) =
     (if seg = js ''..'' then path_segments (butlast out) rest
      else if seg = js ''.'' then path_segments out rest
      else path_segments (out @ [seg]) rest)"

definition host_of :: "jsstring \<Rightarrow> jsstring \<Rightarrow> jsstring" where
  "host_of sch auth =
     (let h = map ascii_lower auth
      in case cut_at 0x3A h of
           (name, Some port) \<Rightarrow>
             if port = [] \<or> (sch = js ''http'' \<and> port = js ''80'')
                \<or> (sch = js ''https'' \<and> port = js ''443'')
             then name else h
         | (name, None) \<Rightarrow> h)"

text \<open>A host and a path after the slashes that follow a special scheme.\<close>

definition parse_authority :: "jsstring \<Rightarrow> jsstring \<Rightarrow> jsstring option \<Rightarrow> jsstring option \<Rightarrow> url_record option" where
  "parse_authority sch s q f =
     (let (auth, p) = cut_at 0x2F s
      in if auth = [] then None
         else Some \<lparr>scheme = sch, authority = Some (host_of sch auth),
                    path = Segments (path_segments []
                             (split_on 0x2F (case p of None \<Rightarrow> [] | Some r \<Rightarrow> r))),
                    query = q, fragment = f\<rparr>)"

text \<open>A reference without a scheme, against a base with a special scheme.\<close>

definition parse_relative :: "url_record \<Rightarrow> jsstring \<Rightarrow> jsstring option \<Rightarrow> jsstring option \<Rightarrow> url_record option" where
  "parse_relative b s q f =
     (case path b of
        Opaque _ \<Rightarrow> None
      | Segments bs \<Rightarrow>
          if startsWith s (js ''//'') then
            parse_authority (scheme b) (dropWhile (\<lambda>c. c = 0x2F) s) q f
          else if startsWith s (js ''/'') then
            Some (b\<lparr>path := Segments (path_segments [] (split_on 0x2F (drop 1 s))),
                    query := q, fragment := f\<rparr>)
          else if s = [] then
            Some (b\<lparr>query := (case q of None \<Rightarrow> query b | Some x \<Rightarrow> Some x),
                    fragment := f\<rparr>)
          else
            Some (b\<lparr>path := Segments (path_segments (butlast bs) (split_on 0x2F s)),
                    query := q, fragment := f\<rparr>))"

definition parse_record :: "jsstring \<Rightarrow> url_record option \<Rightarrow> url_record option" where
  "parse_record input base =
     (let stripped =
            filter (\<lambda>c. c \<noteq> 0x09 \<and> c \<noteq> 0x0A \<and> c \<noteq> 0x0D)
              (rev (dropWhile (\<lambda>c. c \<le> 0x20) (rev (dropWhile (\<lambda>c. c \<le> 0x20) input))));
          (s1, f) = cut_at 0x23 stripped;
          (s2, q) = cut_at 0x3F s1
      in case split_scheme s2 of
           Some (sch, r) \<Rightarrow>
             if is_special sch then
               (case base of
                  Some b \<Rightarrow>
                    if scheme b = sch \<and> \<not> startsWith r (js ''/'')
                    then parse_relative b r q f
                    else parse_authority sch (dropWhile (\<lambda>c. c = 0x2F) r) q f
                | None \<Rightarrow> parse_authority sch (dropWhile (\<lambda>c. c = 0x2F) r) q f)
             else if startsWith r (js ''//'') then
               (let (auth, p) = cut_at 0x2F (drop 2 r)
                in Some \<lparr>scheme = sch, authority = Some auth,
                          path = Segments (case p of None \<Rightarrow> [] | Some x \<Rightarrow> split_on 0x2F x),
                          query = q, fragment = f\<rparr>)
             else Some \<lparr>scheme = sch, authority = None, path = Opaque r,
                        query = q, fragment = f\<rparr>
         | None \<Rightarrow>
             (case base of
                None \<Rightarrow> None
              | Some b \<Rightarrow> if is_special (scheme b) then parse_relative b s2 q f else None))"

definition path_string :: "url_path \<Rightarrow> jsstring" where
  "path_string p =
     (case p of
        Opaque s \<Rightarrow> s
      | Segments segs \<Rightarrow> concat (map (\<lambda>s. 0x2F # s) segs))"

definition serialize :: "url_record \<Rightarrow> url" where
  "serialize r =
     (let auth = (case authority r of None \<Rightarrow> [] | Some a \<Rightarrow> js ''//'' @ a);
          h = (case authority r of None \<Rightarrow> [] | Some a \<Rightarrow> a)
      in \<lparr>href = scheme r @ js '':'' @ auth @ path_string (path r)
                  @ (case query r of None \<Rightarrow> [] | Some q \<Rightarrow> 0x3F # q)
                  @ (case fragment r of None \<Rightarrow> [] | Some f \<Rightarrow> 0x23 # f),
          protocol = scheme r @ js '':'',
          host = h,
          origin = (if is_special (scheme r) then scheme r @ js ''://'' @ h else js ''null''),
          pathname = path_string (path r)\<rparr>)"

definition parse_URL :: "jsstring \<Rightarrow> jsstring option \<Rightarrow> url option" where
  "parse_URL input base =
     (case base of
        None \<Rightarrow> map_option serialize (parse_record input None)
      | Some b \<Rightarrow>
          (case parse_record b None of
             None \<Rightarrow> None
           | Some br \<Rightarrow> map_option serialize (parse_record input (Some br))))"

text \<open>
  A platform for the examples: this parser, a \<open>Request\<close> constructor that accepts
  everything, a network where every fetch throws, and a document without elements
  for the rewriter to find. The examples replace \<open>fetch\<close> by what they need.
\<close>

definition example_platform :: platform where
  "example_platform =
     \<lparr>new_URL = parse_URL,
      Request_rejects = (\<lambda>_ _. False),
      fetch = (\<lambda>_. None),
      HTMLRewriter = (\<lambda>_ html. html)\<rparr>"


text \<open>
  What the URL Standard's serialiser guarantees of a URL object: \<open>protocol\<close> is a
  scheme in lower case, without a colon, followed by one; \<open>href\<close> starts with it;
  and after \<open>http:\<close> and \<open>https:\<close> come two slashes.
\<close>

definition serialized :: "url \<Rightarrow> bool" where
  "serialized u \<longleftrightarrow>
     (case cut_at 0x3A (protocol u) of
        (sch, Some r) \<Rightarrow>
          r = [] \<and> \<not> list_ex is_upper sch \<and> startsWith (href u) (protocol u) \<and>
          (is_special sch \<longrightarrow> startsWith (drop (length (protocol u)) (href u)) (js ''//''))
      | (sch, None) \<Rightarrow> False)"


text \<open>The URLs of the examples.\<close>

definition target_a :: url where
  "target_a =
     \<lparr>href = js ''https://example.com/a/'', protocol = js ''https:'',
      host = js ''example.com'', origin = js ''https://example.com'',
      pathname = js ''/a/''\<rparr>"

definition url_b_c :: url where
  "url_b_c =
     \<lparr>href = js ''https://example.com/b/c'', protocol = js ''https:'',
      host = js ''example.com'', origin = js ''https://example.com'',
      pathname = js ''/b/c''\<rparr>"

definition url_mailto :: url where
  "url_mailto =
     \<lparr>href = js ''mailto:a@b.com'', protocol = js ''mailto:'', host = [],
      origin = js ''null'', pathname = js ''a@b.com''\<rparr>"

definition request_other :: request where
  "request_other =
     \<lparr>req_url = js ''https://proxy.example/other/thing'', req_method = js ''GET'',
      req_headers = [], req_body = None, req_redirect = Follow\<rparr>"

definition request_invalid :: request where
  "request_invalid =
     \<lparr>req_url = js ''https://proxy.example/proxy/https%3A%2F%2F'', req_method = js ''GET'',
      req_headers = [], req_body = None, req_redirect = Follow\<rparr>"

definition request_x :: request where
  "request_x =
     \<lparr>req_url = js ''https://proxy.example/proxy/https%3A%2F%2Fexample.com%2Fx'',
      req_method = js ''GET'', req_headers = [], req_body = None, req_redirect = Follow\<rparr>"

definition url_other :: url where
  "url_other =
     \<lparr>href = js ''https://proxy.example/other/thing'', protocol = js ''https:'',
      host = js ''proxy.example'', origin = js ''https://proxy.example'',
      pathname = js ''/other/thing''\<rparr>"

definition url_invalid :: url where
  "url_invalid =
     \<lparr>href = js ''https://proxy.example/proxy/https%3A%2F%2F'', protocol = js ''https:'',
      host = js ''proxy.example'', origin = js ''https://proxy.example'',
      pathname = js ''/proxy/https%3A%2F%2F''\<rparr>"

definition url_proxy_x :: url where
  "url_proxy_x =
     \<lparr>href = js ''https://proxy.example/proxy/https%3A%2F%2Fexample.com%2Fx'',
      protocol = js ''https:'', host = js ''proxy.example'',
      origin = js ''https://proxy.example'',
      pathname = js ''/proxy/https%3A%2F%2Fexample.com%2Fx''\<rparr>"

definition url_x :: url where
  "url_x =
     \<lparr>href = js ''https://example.com/x'', protocol = js ''https:'',
      host = js ''example.com'', origin = js ''https://example.com'',
      pathname = js ''/x''\<rparr>"

definition outbound_x :: request where
  "outbound_x =
     \<lparr>req_url = js ''https://example.com/x'', req_method = js ''GET'',
      req_headers = [(js ''Host'', js ''example.com'')], req_body = None,
      req_redirect = Manual\<rparr>"

text \<open>The response that the constructor builds from a text alone.\<close>

definition text_response :: "nat \<Rightarrow> jsstring \<Rightarrow> response" where
  "text_response st s =
     \<lparr>res_status = st,
      res_headers = [(js ''content-type'', js ''text/plain;charset=UTF-8'')],
      res_body = Some s\<rparr>"

definition upstream_json :: response where
  "upstream_json =
     \<lparr>res_status = 200,
      res_headers =
        [(js ''Content-Type'', js ''application/json''),
         (js ''Set-Cookie'', js ''sid=1; Domain=example.com; Path=/''),
         (js ''Location'', js ''/next''),
         (js ''X-Frame-Options'', js ''DENY'')],
      res_body = Some (js ''{}'')\<rparr>"

definition platform_json :: platform where
  "platform_json = example_platform\<lparr>fetch := \<lambda>_. Some upstream_json\<rparr>"

definition url_next :: url where
  "url_next =
     \<lparr>href = js ''https://example.com/next'', protocol = js ''https:'',
      host = js ''example.com'', origin = js ''https://example.com'',
      pathname = js ''/next''\<rparr>"

definition meta_example :: element where
  "meta_example =
     [(js ''http-equiv'', js ''refresh''), (js ''content'', js ''5;url=https://example.com/x'')]"

definition upstream_204 :: response where
  "upstream_204 =
     \<lparr>res_status = 204, res_headers = [(js ''Content-Type'', js ''text/html'')],
      res_body = None\<rparr>"

definition platform_204 :: platform where
  "platform_204 = example_platform\<lparr>fetch := \<lambda>_. Some upstream_204\<rparr>"

definition response_json :: response where
  "response_json =
     \<lparr>res_status = 200,
      res_headers =
        [(js ''Content-Type'', js ''application/json''),
         (js ''Location'', js ''https://proxy.example/proxy/https%3A%2F%2Fexample.com%2Fnext''),
         (js ''Set-Cookie'', js ''sid=1; Path=/'')],
      res_body = Some (js ''{}'')\<rparr>"

definition url_root :: url where
  "url_root =
     \<lparr>href = js ''https://example.com/'', protocol = js ''https:'',
      host = js ''example.com'', origin = js ''https://example.com'',
      pathname = js ''/''\<rparr>"

text \<open>
  No suffix of \<open>s\<close> is matched by \<open>m\<close>; and no suffix of \<open>pre @ s\<close> that starts within
  \<open>pre\<close> is.
\<close>

fun no_match :: "(jsstring \<Rightarrow> nat option) \<Rightarrow> jsstring \<Rightarrow> bool" where
  "no_match m [] = True"
| "no_match m (c # cs) = (m (c # cs) = None \<and> no_match m cs)"

fun no_match_before :: "(jsstring \<Rightarrow> nat option) \<Rightarrow> jsstring \<Rightarrow> jsstring \<Rightarrow> bool" where
  "no_match_before m [] s = True"
| "no_match_before m (c # cs) s = (m (c # cs @ s) = None \<and> no_match_before m cs s)"

definition upstream_unresolved :: response where
  "upstream_unresolved =
     \<lparr>res_status = 302,
      res_headers = [(js ''Location'', js ''https://'')],
      res_body = Some (js ''moved'')\<rparr>"

definition platform_unresolved :: platform where
  "platform_unresolved = example_platform\<lparr>fetch := \<lambda>_. Some upstream_unresolved\<rparr>"

definition meta_spaced :: element where
  "meta_spaced =
     [(js ''http-equiv'', js ''refresh''), (js ''content'', js ''0;  URL=/y  '')]"

definition upstream_204_location :: response where
  "upstream_204_location =
     \<lparr>res_status = 204,
      res_headers = [(js ''Content-Type'', js ''text/html''), (js ''Location'', js ''/next'')],
      res_body = None\<rparr>"

definition platform_204_location :: platform where
  "platform_204_location = example_platform\<lparr>fetch := \<lambda>_. Some upstream_204_location\<rparr>"

section \<open>Percent-encoding round trip\<close>

lemma split3: "(cp::nat) div 4096 * 4096 + cp div 64 mod 64 * 64 + cp mod 64 = cp"
proof -
  define q where "q = cp div 64"
  have 1: "cp div 4096 = q div 64" by (simp add: q_def div_mult2_eq)
  have 2: "q div 64 * 64 + q mod 64 = q" by simp
  have "q div 64 * 4096 + q mod 64 * 64 = (q div 64 * 64 + q mod 64) * 64"
    by (simp only: distrib_right mult.assoc)
  also have "\<dots> = q * 64" by (simp only: 2)
  finally have "q div 64 * 4096 + q mod 64 * 64 + cp mod 64 = q * 64 + cp mod 64" by simp
  also have "\<dots> = cp" by (simp add: q_def)
  finally show ?thesis by (simp only: 1 q_def)
qed

lemma split4: "(cp::nat) div 262144 * 262144 + cp div 4096 mod 64 * 4096 + cp div 64 mod 64 * 64 + cp mod 64 = cp"
proof -
  define q where "q = cp div 4096"
  have 1: "cp div 262144 = q div 64" by (simp add: q_def div_mult2_eq)
  have 2: "q div 64 * 64 + q mod 64 = q" by simp
  have "q div 64 * 262144 + q mod 64 * 4096 = (q div 64 * 64 + q mod 64) * 4096"
    by (simp only: distrib_right mult.assoc)
  also have "\<dots> = q * 4096" by (simp only: 2)
  finally have "q div 64 * 262144 + q mod 64 * 4096 + cp div 64 mod 64 * 64 + cp mod 64
      = q * 4096 + cp div 64 mod 64 * 64 + cp mod 64" by simp
  also have "\<dots> = cp" unfolding q_def by (rule split3)
  finally show ?thesis by (simp only: 1 q_def)
qed

lemma d2: assumes "0x80 \<le> cp" "cp < 0x800"
  shows "utf8_decode [0xC0 + cp div 64, 0x80 + cp mod 64] = Some cp"
proof -
  define a where "a = cp div 64"
  define c where "c = cp mod 64"
  have cp: "cp = a * 64 + c" by (simp add: a_def c_def)
  have c: "c < 64" by (simp add: c_def)
  have "utf8_decode [0xC0 + a, 0x80 + c] = Some (a * 64 + c)"
    using assms c unfolding cp by (simp add: is_cont_def)
  then have "utf8_decode [0xC0 + a, 0x80 + c] = Some cp" by (simp only: cp [symmetric])
  then show ?thesis by (simp only: a_def c_def)
qed

lemma d3: assumes "0x800 \<le> cp" "cp < 0x10000" "\<not> (0xD800 \<le> cp \<and> cp \<le> 0xDFFF)"
  shows "utf8_decode [0xE0 + cp div 4096, 0x80 + (cp div 64) mod 64, 0x80 + cp mod 64] = Some cp"
proof -
  define a where "a = cp div 4096"
  define b where "b = cp div 64 mod 64"
  define c where "c = cp mod 64"
  have cp: "cp = a * 4096 + b * 64 + c" unfolding a_def b_def c_def by (rule split3 [symmetric])
  have c: "c < 64" "b < 64" by (simp_all add: c_def b_def)
  have "utf8_decode [0xE0 + a, 0x80 + b, 0x80 + c] = Some (a * 4096 + b * 64 + c)"
    using assms c unfolding cp by (simp add: is_cont_def) linarith
  then have "utf8_decode [0xE0 + a, 0x80 + b, 0x80 + c] = Some cp" by (simp only: cp [symmetric])
  then show ?thesis by (simp only: a_def b_def c_def)
qed

lemma d4: assumes "0x10000 \<le> cp" "cp < 0x110000"
  shows "utf8_decode [0xF0 + cp div 262144, 0x80 + (cp div 4096) mod 64, 0x80 + (cp div 64) mod 64, 0x80 + cp mod 64] = Some cp"
proof -
  define a where "a = cp div 262144"
  define b where "b = cp div 4096 mod 64"
  define c where "c = cp div 64 mod 64"
  define d where "d = cp mod 64"
  have cp: "cp = a * 262144 + b * 4096 + c * 64 + d"
    unfolding a_def b_def c_def d_def by (rule split4 [symmetric])
  have c: "d < 64" "c < 64" "b < 64" by (simp_all add: c_def b_def d_def)
  have "utf8_decode [0xF0 + a, 0x80 + b, 0x80 + c, 0x80 + d] = Some (a * 262144 + b * 4096 + c * 64 + d)"
    using assms c unfolding cp by (simp add: is_cont_def) linarith
  then have "utf8_decode [0xF0 + a, 0x80 + b, 0x80 + c, 0x80 + d] = Some cp" by (simp only: cp [symmetric])
  then show ?thesis by (simp only: a_def b_def c_def d_def)
qed

lemma hexval_hexdigit: "n < 16 \<Longrightarrow> hexval (hexdigit n) = Some n"
proof -
  assume n: "n < 16"
  show ?thesis
  proof (cases "n < 10")
    case True
    then have u: "unat (0x30 + of_nat n :: cu) = 0x30 + n"
      by (simp add: unat_word_ariths unat_of_nat)
    have "is_digit (0x30 + of_nat n)"
      using True u by (simp add: is_digit_def word_le_nat_alt)
    then show ?thesis using True u by (simp add: hexval_def hexdigit_def)
  next
    case False
    with n have u: "unat (0x41 + of_nat (n - 10) :: cu) = 0x41 + (n - 10)"
      by (simp add: unat_word_ariths unat_of_nat)
    have "\<not> is_digit (0x41 + of_nat (n - 10))" "0x41 \<le> (0x41 + of_nat (n - 10) :: cu)"
      "(0x41 + of_nat (n - 10) :: cu) \<le> 0x46"
      using False n u by (simp_all add: is_digit_def word_le_nat_alt)
    then show ?thesis using False u by (simp add: hexval_def hexdigit_def)
  qed
qed

lemma take_escape_hex: "b < 256 \<Longrightarrow> take_escape (hex_escape b @ r) = Some (b, r)"
proof -
  assume b: "b < 256"
  then have "b div 16 < 16" "b mod 16 < 16" by simp_all
  then show ?thesis
    by (simp add: hex_escape_def hexval_hexdigit)
qed


lemma decode_at_escape:
  assumes "b < 256"
  shows "decodeURIComponent (hex_escape b @ r) =
     (if leading_ones b = 0 then map_option ((#) (of_nat b)) (decodeURIComponent r)
      else if leading_ones b = 1 \<or> leading_ones b > 4 then None
      else (case take_escapes (leading_ones b - 1) r of
              None \<Rightarrow> None
            | Some (bs, r') \<Rightarrow>
                (case utf8_decode (b # bs) of
                   None \<Rightarrow> None
                 | Some v \<Rightarrow> map_option ((@) (UTF16EncodeCodePoint v)) (decodeURIComponent r'))))"
proof -
  obtain x y where h: "hex_escape b @ r = 0x25 # x # y # r"
    by (simp add: hex_escape_def)
  have "take_escape (0x25 # x # y # r) = Some (b, r)"
    using take_escape_hex [OF assms, of r] h by simp
  then show ?thesis
    unfolding h by (subst decodeURIComponent.simps) (simp del: take_escape.simps)
qed

lemma take_escapes_1: "b < 256 \<Longrightarrow> take_escapes (Suc 0) (hex_escape b @ r) = Some ([b], r)"
  by (simp add: take_escape_hex)

lemma take_escapes_2:
  "b < 256 \<Longrightarrow> c < 256 \<Longrightarrow>
   take_escapes 2 (hex_escape b @ hex_escape c @ r) = Some ([b, c], r)"
  by (simp add: take_escape_hex numeral_2_eq_2)

lemma take_escapes_3:
  "b < 256 \<Longrightarrow> c < 256 \<Longrightarrow> d < 256 \<Longrightarrow>
   take_escapes 3 (hex_escape b @ hex_escape c @ hex_escape d @ r) = Some ([b, c, d], r)"
  by (simp add: take_escape_hex numeral_3_eq_3)

lemma decode_ascii:
  assumes "cp < 0x80"
  shows "decodeURIComponent (escape_utf8 cp @ r) = map_option ((#) (of_nat cp)) (decodeURIComponent r)"
  using assms by (simp add: escape_utf8_def utf8_encode_def decode_at_escape leading_ones_def)


lemma decode_scalar:
  assumes "cp < 0x110000" "\<not> (0xD800 \<le> cp \<and> cp \<le> 0xDFFF)"
  shows "decodeURIComponent (escape_utf8 cp @ r) =
         map_option ((@) (UTF16EncodeCodePoint cp)) (decodeURIComponent r)"
proof -
  consider (one) "cp < 0x80" | (two) "0x80 \<le> cp" "cp < 0x800"
    | (three) "0x800 \<le> cp" "cp < 0x10000" | (four) "0x10000 \<le> cp"
    by linarith
  then show ?thesis
  proof cases
    case one
    have "(@) [of_nat cp :: cu] = (#) (of_nat cp)" by (rule ext) simp
    with one show ?thesis
      by (simp add: decode_ascii UTF16EncodeCodePoint_def)
  next
    case two
    let ?b0 = "0xC0 + cp div 64" and ?b1 = "0x80 + cp mod 64"
    have b: "?b0 < 256" "?b1 < 256" using two by simp_all
    have l: "leading_ones ?b0 = 2" using two by (simp add: leading_ones_def)
    have "escape_utf8 cp @ r = hex_escape ?b0 @ hex_escape ?b1 @ r"
      using two by (simp add: escape_utf8_def utf8_encode_def)
    then show ?thesis
      using b l d2 [OF two]
      by (simp add: decode_at_escape take_escapes_1 del: utf8_decode.simps take_escapes.simps)
  next
    case three
    let ?b0 = "0xE0 + cp div 4096" and ?b1 = "0x80 + (cp div 64) mod 64" and ?b2 = "0x80 + cp mod 64"
    have b: "?b0 < 256" "?b1 < 256" "?b2 < 256" using three by simp_all
    have l: "leading_ones ?b0 = 3" using three by (simp add: leading_ones_def)
    have "escape_utf8 cp @ r = hex_escape ?b0 @ hex_escape ?b1 @ hex_escape ?b2 @ r"
      using three by (simp add: escape_utf8_def utf8_encode_def)
    then show ?thesis
      using b l d3 [OF three assms(2)]
      by (simp add: decode_at_escape take_escapes_2 del: utf8_decode.simps take_escapes.simps)
  next
    case four
    let ?b0 = "0xF0 + cp div 262144" and ?b1 = "0x80 + (cp div 4096) mod 64"
    let ?b2 = "0x80 + (cp div 64) mod 64" and ?b3 = "0x80 + cp mod 64"
    have b: "?b0 < 256" "?b1 < 256" "?b2 < 256" "?b3 < 256" using four assms by simp_all
    have l: "leading_ones ?b0 = 4" using four assms by (simp add: leading_ones_def)
    have "escape_utf8 cp @ r = hex_escape ?b0 @ hex_escape ?b1 @ hex_escape ?b2 @ hex_escape ?b3 @ r"
      using four by (simp add: escape_utf8_def utf8_encode_def)
    then show ?thesis
      using b l d4 [OF four assms(1)]
      by (simp add: decode_at_escape take_escapes_3 del: utf8_decode.simps take_escapes.simps)
  qed
qed

lemma utf16_single: "UTF16EncodeCodePoint (unat (c::cu)) = [c]"
proof -
  have "unat c < 2 ^ 16" using unsigned_less [of c, where ?'a = nat] by simp
  then show ?thesis by (simp add: UTF16EncodeCodePoint_def)
qed

lemma pair_cp_range:
  assumes "is_lead c" "is_trail d"
  shows "0x10000 \<le> pair_cp c d" "pair_cp c d < 0x110000"
proof -
  have "0xD800 \<le> unat c" "unat c \<le> 0xDBFF" "0xDC00 \<le> unat d" "unat d \<le> 0xDFFF"
    using assms by (simp_all add: is_lead_def is_trail_def word_le_nat_alt)
  then show "0x10000 \<le> pair_cp c d" "pair_cp c d < 0x110000"
    by (simp_all add: pair_cp_def)
qed

lemma utf16_pair:
  assumes "is_lead c" "is_trail d"
  shows "UTF16EncodeCodePoint (pair_cp c d) = [c, d]"
proof -
  define h where "h = unat c - 0xD800"
  define l where "l = unat d - 0xDC00"
  have r: "0xD800 \<le> unat c" "unat c \<le> 0xDBFF" "0xDC00 \<le> unat d" "unat d \<le> 0xDFFF"
    using assms by (simp_all add: is_lead_def is_trail_def word_le_nat_alt)
  then have hl: "h < 0x400" "l < 0x400" "h + 0xD800 = unat c" "l + 0xDC00 = unat d"
    by (simp_all add: h_def l_def)
  have p: "pair_cp c d = h * 0x400 + l + 0x10000" by (simp add: pair_cp_def h_def l_def)
  have "(h * 0x400 + l) div 0x400 = h" "(h * 0x400 + l) mod 0x400 = l"
    using hl by simp_all
  then show ?thesis
    unfolding p UTF16EncodeCodePoint_def using hl by simp
qed

lemma unescaped_facts:
  assumes "uriUnescaped c"
  shows "c \<noteq> 0x25" "\<not> is_lead c" "\<not> is_trail c" "c \<noteq> 0x2F"
  using assms
  by (auto simp add: uriUnescaped_def is_upper_def is_lower_def is_digit_def is_lead_def is_trail_def
      word_le_nat_alt)

lemma roundtrip:
  "wf_utf16 u \<Longrightarrow> \<exists>e. encodeURIComponent u = Some e \<and> decodeURIComponent e = Some u"
proof (induction u rule: encodeURIComponent.induct)
  case 1
  then show ?case by simp
next
  case (2 c cs)
  show ?case
  proof (cases "uriUnescaped c")
    case True
    with "2.prems" unescaped_facts [OF True] have "wf_utf16 cs" by simp
    from "2.IH"(1) [OF True this] obtain e where
      "encodeURIComponent cs = Some e" "decodeURIComponent e = Some cs" by blast
    then show ?thesis using True unescaped_facts(1) [OF True] by simp
  next
    case False
    note nu = this
    show ?thesis
    proof (cases "is_lead c")
      case True
      then have nt: "\<not> is_trail c" by (auto simp: is_lead_def is_trail_def word_le_nat_alt)
      from "2.prems" True obtain d ds where cs: "cs = d # ds" and d: "is_trail d" and w: "wf_utf16 ds"
        by (cases cs) auto
      from "2.IH"(2) [OF nu nt True cs d w] obtain e where
        e: "encodeURIComponent ds = Some e" "decodeURIComponent e = Some ds" by blast
      have "\<not> (0xD800 \<le> pair_cp c d \<and> pair_cp c d \<le> 0xDFFF)"
        using pair_cp_range [OF True d] by simp
      then have "decodeURIComponent (escape_utf8 (pair_cp c d) @ e) = Some (c # d # ds)"
        using pair_cp_range [OF True d] e utf16_pair [OF True d]
        by (simp add: decode_scalar)
      then show ?thesis using nu nt True cs d e by simp
    next
      case False
      with "2.prems" have nt: "\<not> is_trail c" and w: "wf_utf16 cs" by simp_all
      from "2.IH"(3) [OF nu nt False w] obtain e where
        e: "encodeURIComponent cs = Some e" "decodeURIComponent e = Some cs" by blast
      have "unat c < 2 ^ 16" using unsigned_less [of c, where ?'a = nat] by simp
      moreover have "\<not> (0xD800 \<le> unat c \<and> unat c \<le> 0xDFFF)"
        using False nt by (auto simp add: is_lead_def is_trail_def word_le_nat_alt)
      ultimately have "decodeURIComponent (escape_utf8 (unat c) @ e) = Some (c # cs)"
        using e utf16_single [of c] by (simp add: decode_scalar)
      then show ?thesis using nu nt False e by simp
    qed
  qed
qed


lemma hexdigit_not_slash: "n < 16 \<Longrightarrow> hexdigit n \<noteq> 0x2F"
proof
  assume "n < 16" "hexdigit n = 0x2F"
  with hexval_hexdigit [of n] have "hexval 0x2F = Some n" by simp
  then show False by (simp add: hexval_def is_digit_def)
qed

lemma hex_escape_no_slash: "b < 256 \<Longrightarrow> 0x2F \<notin> set (hex_escape b)"
proof -
  assume "b < 256"
  then have "b div 16 < 16" "b mod 16 < 16" by simp_all
  then show ?thesis using hexdigit_not_slash by (auto simp add: hex_escape_def)
qed

lemma utf8_encode_bytes:
  assumes "cp < 0x110000"
  shows "\<forall>b \<in> set (utf8_encode cp). b < 256"
proof -
  have m64: "x mod 64 < 128" for x :: nat
  proof -
    have "x mod 64 < 64" by simp
    then show ?thesis by linarith
  qed
  note m = m64 [of cp] m64 [of "cp div 64"] m64 [of "cp div 4096"]
  have a: "cp div 64 < 32" if "cp < 0x800" by (rule less_mult_imp_div_less) (use that in simp)
  have b: "cp div 4096 < 16" if "cp < 0x10000" by (rule less_mult_imp_div_less) (use that in simp)
  have c: "cp div 262144 < 8" by (rule less_mult_imp_div_less) (use assms in simp)
  show ?thesis
  proof (cases "cp < 0x80")
    case True
    then show ?thesis by (simp add: utf8_encode_def)
  next
    case n1: False
    show ?thesis
    proof (cases "cp < 0x800")
      case True
      then show ?thesis using n1 m a by (simp add: utf8_encode_def)
    next
      case n2: False
      show ?thesis
      proof (cases "cp < 0x10000")
        case True
        then show ?thesis using n1 n2 m b by (simp add: utf8_encode_def)
      next
        case False
        then show ?thesis using n1 n2 m c by (simp add: utf8_encode_def)
      qed
    qed
  qed
qed

lemma escape_utf8_no_slash: "cp < 0x110000 \<Longrightarrow> 0x2F \<notin> set (escape_utf8 cp)"
  using utf8_encode_bytes [of cp] hex_escape_no_slash
  by (auto simp add: escape_utf8_def)

lemma encode_no_slash: "encodeURIComponent u = Some e \<Longrightarrow> 0x2F \<notin> set e"
proof (induction u arbitrary: e rule: encodeURIComponent.induct)
  case 1
  then show ?case by simp
next
  case (2 c cs)
  show ?case
  proof (cases "uriUnescaped c")
    case True
    with "2.prems" obtain e' where e': "encodeURIComponent cs = Some e'" "e = c # e'" by auto
    with "2.IH"(1) [OF True e'(1)] unescaped_facts(4) [OF True] show ?thesis by simp
  next
    case nu: False
    show ?thesis
    proof (cases "is_lead c")
      case True
      then have nt: "\<not> is_trail c" by (auto simp: is_lead_def is_trail_def word_le_nat_alt)
      from "2.prems" nu nt True obtain d ds e' where
        cs: "cs = d # ds" and d: "is_trail d" and e': "encodeURIComponent ds = Some e'"
        and e: "e = escape_utf8 (pair_cp c d) @ e'"
        by (cases cs) (auto split: if_splits)
      from "2.IH"(2) [OF nu nt True cs d e'] escape_utf8_no_slash [OF pair_cp_range(2) [OF True d]] e
      show ?thesis by simp
    next
      case False
      with "2.prems" nu obtain e' where nt: "\<not> is_trail c"
        and e': "encodeURIComponent cs = Some e'" and e: "e = escape_utf8 (unat c) @ e'"
        by (auto split: if_splits)
      have "unat c < 0x110000" using unsigned_less [of c, where ?'a = nat] by simp
      from "2.IH"(3) [OF nu nt False e'] escape_utf8_no_slash [OF this] e
      show ?thesis by simp
    qed
  qed
qed

lemma split_on_absent: "sep \<notin> set s \<Longrightarrow> split_on sep s = [s]"
  by (induction s) auto

lemma split_proxy_path:
  assumes "0x2F \<notin> set e"
  shows "split_on 0x2F (js ''/proxy/'' @ e) = [[], js ''proxy'', e]"
  using split_on_absent [OF assms] by (simp add: js_def)

lemma Decode_proxy_path:
  assumes "0x2F \<notin> set e"
  shows "Decode P (js ''/proxy/'' @ e) = decodeTarget P e"
  unfolding Decode_def split_proxy_path [OF assms] by (simp add: numeral_2_eq_2)

lemma test_http_scheme_nonempty: "test_http_scheme u \<Longrightarrow> u \<noteq> []"
  by (auto simp add: test_http_scheme_def js_def)

lemma Decode_Encode:
  assumes "wf_utf16 u" "test_http_scheme u" "new_URL P u None \<noteq> None"
  shows "\<exists>p. Encode u = Some p \<and> Decode P p = Some u"
proof -
  from roundtrip [OF assms(1)] obtain e where
    e: "encodeURIComponent u = Some e" "decodeURIComponent e = Some u" by blast
  have ne: "e \<noteq> []" using e(2) test_http_scheme_nonempty [OF assms(2)] by auto
  have "decodeTarget P e = Some u"
    using e(2) ne assms(2,3) by (auto simp add: decodeTarget_def)
  then have "Decode P (js ''/proxy/'' @ e) = Some u"
    using Decode_proxy_path [OF encode_no_slash [OF e(1)]] by simp
  then show ?thesis using e(1) by (simp add: Encode_def)
qed

lemma utf8_decode_scalar:
  assumes "utf8_decode bs = Some v"
  shows "v < 0x110000" "\<not> (0xD800 \<le> v \<and> v \<le> 0xDFFF)"
  using assms
  by (cases bs rule: utf8_decode.cases; auto simp add: is_cont_def split: if_splits)+

lemma wf_utf16_single: "\<not> is_lead c \<Longrightarrow> \<not> is_trail c \<Longrightarrow> wf_utf16 (c # r) = wf_utf16 r"
  by simp

lemma wf_UTF16Encode:
  assumes "v < 0x110000" "\<not> (0xD800 \<le> v \<and> v \<le> 0xDFFF)"
  shows "wf_utf16 (UTF16EncodeCodePoint v @ r) = wf_utf16 r"
proof (cases "v \<le> 0xFFFF")
  case True
  then have "unat (of_nat v :: cu) = v" by (simp add: unat_of_nat)
  then have "\<not> is_lead (of_nat v)" "\<not> is_trail (of_nat v)"
    using assms(2) by (auto simp add: is_lead_def is_trail_def word_le_nat_alt)
  then show ?thesis using True by (simp add: UTF16EncodeCodePoint_def)
next
  case False
  define h where "h = (v - 0x10000) div 0x400"
  define l where "l = (v - 0x10000) mod 0x400"
  have "h < 0x400" unfolding h_def by (rule less_mult_imp_div_less) (use assms(1) in simp)
  moreover have "l < 0x400" by (simp add: l_def)
  moreover have u: "unat (of_nat n :: cu) = n" if "n < 65536" for n
    using that by (simp add: unat_of_nat)
  ultimately have "unat (of_nat (h + 0xD800) :: cu) = h + 0xD800"
    "unat (of_nat (l + 0xDC00) :: cu) = l + 0xDC00"
    by - (rule u, simp)+
  then have "is_lead (of_nat (h + 0xD800))" "is_trail (of_nat (l + 0xDC00))"
    using \<open>h < 0x400\<close> \<open>l < 0x400\<close> by (simp_all add: is_lead_def is_trail_def word_le_nat_alt)
  then show ?thesis using False by (simp add: UTF16EncodeCodePoint_def h_def l_def)
qed

lemma take_escape_suffix: "take_escape s = Some (b, r) \<Longrightarrow> set r \<subseteq> set s"
  by (cases s rule: take_escape.cases) (auto split: if_splits option.splits)

lemma take_escapes_suffix: "take_escapes n s = Some (bs, r) \<Longrightarrow> set r \<subseteq> set s"
proof (induction n arbitrary: s bs r)
  case 0
  then show ?case by simp
next
  case (Suc n)
  from Suc.prems obtain b rest bs' where
    e: "take_escape s = Some (b, rest)" and es: "take_escapes n rest = Some (bs', r)"
    by (auto split: option.splits)
  from take_escape_suffix [OF e] Suc.IH [OF es] show ?case by blast
qed

lemma ascii_not_surrogate: "c < 0x80 \<Longrightarrow> \<not> is_lead c \<and> \<not> is_trail c"
  by (auto simp add: is_lead_def is_trail_def word_le_nat_alt word_less_nat_alt)

lemma decode_wf:
  "is_ascii e \<Longrightarrow> decodeURIComponent e = Some d \<Longrightarrow> wf_utf16 d"
proof (induction e arbitrary: d rule: decodeURIComponent.induct)
  case 1
  then show ?case by simp
next
  case (2 c cs)
  from "2.prems"(1) have c: "c < 0x80" and cs: "is_ascii cs" by (simp_all add: is_ascii_def)
  show ?case
  proof (cases "c \<noteq> 0x25")
    case True
    with "2.prems"(2) obtain d' where d': "decodeURIComponent cs = Some d'" "d = c # d'" by auto
    from "2.IH"(1) [OF True cs d'(1)] ascii_not_surrogate [OF c] d'(2) show ?thesis by simp
  next
    case False
    with "2.prems"(2) obtain b rest where e: "take_escape (c # cs) = Some (b, rest)"
      by (auto split: option.splits)
    have rest: "is_ascii rest"
      using take_escape_suffix [OF e] "2.prems"(1) by (auto simp add: is_ascii_def list_all_iff)
    show ?thesis
    proof (cases "leading_ones b = 0")
      case True
      with "2.prems"(2) False e obtain d' where
        d': "decodeURIComponent rest = Some d'" "d = of_nat b # d'" by auto
      from True have "b < 0x80" by (auto simp add: leading_ones_def split: if_splits)
      then have "unat (of_nat b :: cu) = b" by (simp add: unat_of_nat)
      with \<open>b < 0x80\<close> have "(of_nat b :: cu) < 0x80" by (simp add: word_less_nat_alt)
      from "2.IH"(2) [OF False e refl True rest d'(1)] ascii_not_surrogate [OF this] d'(2)
      show ?thesis by simp
    next
      case nz: False
      with "2.prems"(2) False e obtain bs rest' v d' where
        n: "\<not> (leading_ones b = 1 \<or> 4 < leading_ones b)"
        and es: "take_escapes (leading_ones b - 1) rest = Some (bs, rest')"
        and v: "utf8_decode (b # bs) = Some v"
        and d': "decodeURIComponent rest' = Some d'" "d = UTF16EncodeCodePoint v @ d'"
        by (auto split: option.splits if_splits)
      have rest': "is_ascii rest'"
        using take_escapes_suffix [OF es] rest by (auto simp add: is_ascii_def list_all_iff)
      from "2.IH"(3) [OF False e refl nz n es refl v rest' d'(1)]
        wf_UTF16Encode [OF utf8_decode_scalar [OF v]] d'(2)
      show ?thesis by simp
    qed
  qed
qed


lemma split_on_sets: "x \<in> set (split_on sep s) \<Longrightarrow> set x \<subseteq> set s"
proof (induction s arbitrary: x)
  case Nil
  then show ?case by simp
next
  case (Cons c cs)
  show ?case
  proof (cases "c = sep")
    case True
    with Cons show ?thesis by auto
  next
    case False
    show ?thesis
    proof (cases "split_on sep cs")
      case Nil
      with Cons.prems False show ?thesis by auto
    next
      case (Cons y ys)
      with Cons.prems False have "x = c # y \<or> x \<in> set ys" by auto
      with Cons.IH [of y] Cons.IH [of x] Cons show ?thesis by auto
    qed
  qed
qed

lemma join_sets: "set (join sep xs) \<subseteq> set sep \<union> \<Union> (set ` set xs)"
  by (induction sep xs rule: join.induct) auto

lemma encodedUrl_ascii:
  assumes "is_ascii p"
  shows "is_ascii (join (js ''/'') (drop 2 (split_on 0x2F p)))"
proof -
  have "set (join (js ''/'') (drop 2 (split_on 0x2F p))) \<subseteq> set (js ''/'') \<union> set p"
    using join_sets [of "js ''/''" "drop 2 (split_on 0x2F p)"] split_on_sets [where sep = "0x2F" and s = p]
    by (auto dest: in_set_dropD)
  then show ?thesis using assms by (auto simp add: is_ascii_def list_all_iff js_def)
qed

lemma decodeTarget_valid:
  assumes "is_ascii e" "decodeTarget P e = Some t"
    "new_URL P (js ''https://www.google.com'') None \<noteq> None"
  shows "wf_utf16 t \<and> test_http_scheme t \<and> new_URL P t None \<noteq> None"
proof (cases "e = []")
  case True
  with assms(2) have "t = js ''https://www.google.com''" by (simp add: decodeTarget_def)
  then show ?thesis using assms(3)
    by (simp add: js_def test_http_scheme_def eq_ci_def is_lead_def is_trail_def)
next
  case False
  with assms(2) obtain d where d: "decodeURIComponent e = Some d"
    and t: "t = (if \<not> test_http_scheme d then js ''https://'' @ d else d)"
    and u: "new_URL P t None \<noteq> None"
    by (auto simp add: decodeTarget_def Let_def split: option.splits)
  have w: "wf_utf16 d" by (rule decode_wf [OF assms(1) d])
  have "wf_utf16 (js ''https://'' @ d)" using w by (simp add: js_def is_lead_def is_trail_def)
  moreover have "test_http_scheme (js ''https://'' @ d)"
    by (simp add: js_def test_http_scheme_def eq_ci_def)
  ultimately show ?thesis using t u w by auto
qed

lemma Encode_Decode:
  assumes "is_ascii p" "Decode P p = Some t"
    "new_URL P (js ''https://www.google.com'') None \<noteq> None"
  shows "\<exists>p'. Encode t = Some p' \<and> Decode P p' = Some t"
proof -
  from assms(2) have "decodeTarget P (join (js ''/'') (drop 2 (split_on 0x2F p))) = Some t"
    by (simp add: Decode_def Let_def split: if_splits)
  from decodeTarget_valid [OF encodedUrl_ascii [OF assms(1)] this assms(3)]
  show ?thesis using Decode_Encode by blast
qed

section \<open>The claims\<close>

text \<open>
  C1. For every valid absolute http(s) URL \<open>u\<close> (a string without unpaired
  surrogates that starts with \<open>http://\<close> or \<open>https://\<close> and that the URL parser
  accepts), the proxy path obtained by encoding \<open>u\<close> decodes to \<open>u\<close> again. And
  decoding then re-encoding is idempotent: the target \<open>t\<close> decoded from any path
  (a path of a URL is ASCII) encodes to a path that decodes to \<open>t\<close>. The parser is
  taken to accept the built-in default target.
\<close>

theorem C1_roundtrip:
  "(wf_utf16 u \<and> test_http_scheme u \<and> new_URL P u None \<noteq> None \<longrightarrow>
      (\<exists>p. Encode u = Some p \<and> Decode P p = Some u)) \<and>
   (is_ascii q \<and> Decode P q = Some t \<and>
      new_URL P (js ''https://www.google.com'') None \<noteq> None \<longrightarrow>
      (\<exists>p'. Encode t = Some p' \<and> Decode P p' = Some t))"
  using Decode_Encode [of u P] Encode_Decode [of q P t] by blast

theorem C1_roundtrip_witness:
  "wf_utf16 (js ''https://example.com/x'') \<and>
   test_http_scheme (js ''https://example.com/x'') \<and>
   new_URL example_platform (js ''https://example.com/x'') None \<noteq> None \<and>
   (\<exists>p. Encode (js ''https://example.com/x'') = Some p \<and>
        Decode example_platform p = Some (js ''https://example.com/x'')) \<and>
   is_ascii (js ''/proxy/example.com'') \<and>
   Decode example_platform (js ''/proxy/example.com'') = Some (js ''https://example.com'') \<and>
   new_URL example_platform (js ''https://www.google.com'') None \<noteq> None \<and>
   (\<exists>p'. Encode (js ''https://example.com'') = Some p' \<and>
         Decode example_platform p' = Some (js ''https://example.com''))"
proof -
  have 1: "wf_utf16 (js ''https://example.com/x'')"
    "test_http_scheme (js ''https://example.com/x'')"
    "new_URL example_platform (js ''https://example.com/x'') None \<noteq> None"
    by code_simp+
  have 2: "is_ascii (js ''/proxy/example.com'')"
    "Decode example_platform (js ''/proxy/example.com'') = Some (js ''https://example.com'')"
    "new_URL example_platform (js ''https://www.google.com'') None \<noteq> None"
    by code_simp+
  show ?thesis
    using 1 2
      C1_roundtrip [of "js ''https://example.com/x''" example_platform
        "js ''/proxy/example.com''" "js ''https://example.com''"]
    by blast
qed

section \<open>Rewriting of references\<close>

lemma starts_with_ci_iff:
  "starts_with_ci p s \<longleftrightarrow>
     length p \<le> length s \<and> map ascii_lower (take (length p) s) = map ascii_lower p"
  by (induction p s rule: starts_with_ci.induct) (auto simp add: eq_ci_def)

lemma unat_lower_of_upper:
  assumes "is_upper c"
  shows "unat (c + 0x20) = unat c + 0x20"
proof -
  from assms have "unat c \<le> 0x5A" by (simp add: is_upper_def word_le_nat_alt)
  then show ?thesis by (simp add: unat_word_ariths)
qed

lemma ascii_lower_colon: "ascii_lower c = 0x3A \<longleftrightarrow> c = 0x3A"
proof (cases "is_upper c")
  case True
  then have "0x41 \<le> unat c" by (simp add: is_upper_def word_le_nat_alt)
  with unat_lower_of_upper [OF True] have "unat (c + 0x20) \<noteq> unat (0x3A :: cu)" by simp
  then have "c + 0x20 \<noteq> 0x3A" by auto
  moreover from True have "c \<noteq> 0x3A" by (auto simp add: is_upper_def)
  ultimately show ?thesis using True by (simp add: ascii_lower_def)
next
  case False
  then show ?thesis by (simp add: ascii_lower_def)
qed

lemma ascii_lower_id: "\<not> is_upper c \<Longrightarrow> ascii_lower c = c"
  by (simp add: ascii_lower_def)

lemma takeWhile_before: "c \<notin> set a \<Longrightarrow> takeWhile (\<lambda>x. x \<noteq> c) (a @ c # r) = a"
  by (induction a) auto

lemma cut_at_Some:
  "cut_at c s = (a, Some r) \<Longrightarrow> s = a @ c # r \<and> c \<notin> set a"
proof (induction s arbitrary: a)
  case Nil
  then show ?case by (simp add: cut_at_def)
next
  case (Cons x xs)
  show ?case
  proof (cases "x = c")
    case True
    with Cons.prems show ?thesis by (simp add: cut_at_def)
  next
    case False
    with Cons.prems obtain a' where a: "a = x # a'" and "cut_at c xs = (a', Some r)"
      by (auto simp add: cut_at_def)
    from Cons.IH [OF this(2)] a False show ?thesis by auto
  qed
qed

lemma startsWithD: "startsWith s t \<Longrightarrow> s = t @ drop (length t) s"
  unfolding startsWith_def by (metis append_take_drop_id)

lemma serialized_test:
  assumes "serialized u"
  shows "test_http_scheme (href u) \<longleftrightarrow> protocol u = js ''http:'' \<or> protocol u = js ''https:''"
proof -
  from assms obtain sch where c: "cut_at 0x3A (protocol u) = (sch, Some [])"
    and low: "\<not> list_ex is_upper sch"
    and pre: "startsWith (href u) (protocol u)"
    and sl: "is_special sch \<longrightarrow> startsWith (drop (length (protocol u)) (href u)) (js ''//'')"
    by (auto simp add: serialized_def split: prod.splits option.splits)
  from cut_at_Some [OF c] have p: "protocol u = sch @ [0x3A]" and nc: "0x3A \<notin> set sch" by simp_all
  from pre obtain rest where h: "href u = sch @ 0x3A # rest"
    unfolding startsWith_def p by (metis append_take_drop_id append.assoc append_Cons append_Nil)
  have lo: "map ascii_lower sch = sch"
    using low by (induction sch) (auto simp add: ascii_lower_id list_ex_iff)
  have tw: "takeWhile (\<lambda>c. c \<noteq> 0x3A) (map ascii_lower (href u)) = sch"
  proof -
    have "(\<lambda>c. c \<noteq> 0x3A) \<circ> ascii_lower = (\<lambda>c. c \<noteq> 0x3A)"
      by (rule ext) (simp add: ascii_lower_colon)
    then have "takeWhile (\<lambda>c. c \<noteq> 0x3A) (map ascii_lower (href u)) =
        map ascii_lower (takeWhile (\<lambda>c. c \<noteq> 0x3A) (href u))"
      by (simp add: takeWhile_map)
    also have "takeWhile (\<lambda>c. c \<noteq> 0x3A) (href u) = sch"
      unfolding h using nc by (rule takeWhile_before)
    finally show ?thesis using lo by simp
  qed
  have key: "\<exists>x. sch = takeWhile (\<lambda>c. c \<noteq> 0x3A) (map ascii_lower q @ x)"
    if "starts_with_ci q (href u)" for q
  proof -
    from that have "map ascii_lower (take (length q) (href u)) = map ascii_lower q"
      by (simp add: starts_with_ci_iff)
    then have "map ascii_lower (href u) = map ascii_lower q @ map ascii_lower (drop (length q) (href u))"
      by (metis append_take_drop_id map_append)
    with tw show ?thesis by metis
  qed
  show ?thesis
  proof
    assume "test_http_scheme (href u)"
    then consider "starts_with_ci (js ''http://'') (href u)" | "starts_with_ci (js ''https://'') (href u)"
      by (auto simp add: test_http_scheme_def)
    then show "protocol u = js ''http:'' \<or> protocol u = js ''https:''"
    proof cases
      case 1
      from key [OF 1] have "sch = js ''http''" by (elim exE) (simp add: js_def ascii_lower_def is_upper_def)
      with p show ?thesis by (simp add: js_def)
    next
      case 2
      from key [OF 2] have "sch = js ''https''" by (elim exE) (simp add: js_def ascii_lower_def is_upper_def)
      with p show ?thesis by (simp add: js_def)
    qed
  next
    assume "protocol u = js ''http:'' \<or> protocol u = js ''https:''"
    with p have s: "sch = js ''http'' \<or> sch = js ''https''" by (auto simp add: js_def)
    then have "is_special sch" by (simp add: is_special_def)
    with sl have "startsWith (drop (length (protocol u)) (href u)) (js ''//'')" by simp
    then have "startsWith rest (js ''//'')" unfolding h p by simp
    from startsWithD [OF this] obtain r2 where "rest = js ''//'' @ r2" ..
    with h s show "test_http_scheme (href u)"
      by (auto simp add: test_http_scheme_def js_def eq_ci_def)
  qed
qed


lemma encode_total: "wf_utf16 u \<Longrightarrow> \<exists>e. encodeURIComponent u = Some e"
  using roundtrip by blast


text \<open>
  C2. \<open>rewriteAttributeValue\<close> resolves the value against the target. When the
  resolution fails, or the resolved URL has another scheme than http and https, the
  value is returned unchanged; when the scheme is http or https, the result is the
  proxy path of the resolved URL. With the target \<open>https://example.com/a/\<close>,
  \<open>/b/c\<close> gives the proxy path of \<open>https://example.com/b/c\<close>,
  \<open>//cdn.example.com/x\<close> that of \<open>https://cdn.example.com/x\<close>, and
  \<open>mailto:a@b.com\<close> is returned unchanged.
\<close>

theorem C2_rewriteReference:
  "(new_URL P v1 (Some (href target)) = None \<longrightarrow> rewriteAttributeValue P v1 target = v1) \<and>
   (new_URL P v2 (Some (href target)) = Some u2 \<and> serialized u2 \<and>
      protocol u2 \<noteq> js ''http:'' \<and> protocol u2 \<noteq> js ''https:'' \<longrightarrow>
      rewriteAttributeValue P v2 target = v2) \<and>
   (new_URL P v3 (Some (href target)) = Some u3 \<and> serialized u3 \<and>
      (protocol u3 = js ''http:'' \<or> protocol u3 = js ''https:'') \<and> wf_utf16 (href u3) \<longrightarrow>
      Encode (href u3) = Some (rewriteAttributeValue P v3 target)) \<and>
   parse_URL (js ''https://example.com/a/'') None = Some target_a \<and>
   Some (rewriteAttributeValue example_platform (js ''/b/c'') target_a) =
     Encode (js ''https://example.com/b/c'') \<and>
   Some (rewriteAttributeValue example_platform (js ''//cdn.example.com/x'') target_a) =
     Encode (js ''https://cdn.example.com/x'') \<and>
   rewriteAttributeValue example_platform (js ''mailto:a@b.com'') target_a = js ''mailto:a@b.com''"
proof (intro conjI impI)
  assume "new_URL P v1 (Some (href target)) = None"
  then show "rewriteAttributeValue P v1 target = v1" by (simp add: rewriteAttributeValue_def)
next
  assume a: "new_URL P v2 (Some (href target)) = Some u2 \<and> serialized u2 \<and>
      protocol u2 \<noteq> js ''http:'' \<and> protocol u2 \<noteq> js ''https:''"
  then have "\<not> test_http_scheme (href u2)" using serialized_test [of u2] by simp
  with a show "rewriteAttributeValue P v2 target = v2" by (simp add: rewriteAttributeValue_def)
next
  assume a: "new_URL P v3 (Some (href target)) = Some u3 \<and> serialized u3 \<and>
      (protocol u3 = js ''http:'' \<or> protocol u3 = js ''https:'') \<and> wf_utf16 (href u3)"
  then have t: "test_http_scheme (href u3)" using serialized_test [of u3] by simp
  from a encode_total obtain e where "encodeURIComponent (href u3) = Some e" by blast
  with a t show "Encode (href u3) = Some (rewriteAttributeValue P v3 target)"
    by (simp add: rewriteAttributeValue_def Encode_def)
next
  show "parse_URL (js ''https://example.com/a/'') None = Some target_a" by code_simp
  show "Some (rewriteAttributeValue example_platform (js ''/b/c'') target_a) =
     Encode (js ''https://example.com/b/c'')" by code_simp
  show "Some (rewriteAttributeValue example_platform (js ''//cdn.example.com/x'') target_a) =
     Encode (js ''https://cdn.example.com/x'')" by code_simp
  show "rewriteAttributeValue example_platform (js ''mailto:a@b.com'') target_a = js ''mailto:a@b.com''"
    by code_simp
qed



theorem C2_rewriteReference_witness:
  "new_URL example_platform (js ''https://'') (Some (href target_a)) = None \<and>
   rewriteAttributeValue example_platform (js ''https://'') target_a = js ''https://'' \<and>
   new_URL example_platform (js ''mailto:a@b.com'') (Some (href target_a)) = Some url_mailto \<and>
   serialized url_mailto \<and>
   protocol url_mailto \<noteq> js ''http:'' \<and> protocol url_mailto \<noteq> js ''https:'' \<and>
   rewriteAttributeValue example_platform (js ''mailto:a@b.com'') target_a = js ''mailto:a@b.com'' \<and>
   new_URL example_platform (js ''/b/c'') (Some (href target_a)) = Some url_b_c \<and>
   serialized url_b_c \<and> protocol url_b_c = js ''https:'' \<and> wf_utf16 (href url_b_c) \<and>
   Encode (href url_b_c) = Some (rewriteAttributeValue example_platform (js ''/b/c'') target_a)"
proof -
  have 1: "new_URL example_platform (js ''https://'') (Some (href target_a)) = None"
    by code_simp
  have 2: "new_URL example_platform (js ''mailto:a@b.com'') (Some (href target_a)) = Some url_mailto"
    "serialized url_mailto" "protocol url_mailto \<noteq> js ''http:''"
    "protocol url_mailto \<noteq> js ''https:''"
    by code_simp+
  have 3: "new_URL example_platform (js ''/b/c'') (Some (href target_a)) = Some url_b_c"
    "serialized url_b_c" "protocol url_b_c = js ''https:''" "wf_utf16 (href url_b_c)"
    by code_simp+
  show ?thesis
    using 1 2 3
      C2_rewriteReference [of example_platform "js ''https://''" target_a
        "js ''mailto:a@b.com''" url_mailto "js ''/b/c''" url_b_c]
    by blast
qed

section \<open>The handler\<close>

lemma new_Response_text_plain:
  "200 \<le> st \<Longrightarrow> st \<le> 599 \<Longrightarrow> \<not> null_body_status st \<Longrightarrow>
   new_Response_text s st [] = Some (text_response st s)"
  by (simp add: new_Response_text_def new_Response_def headers_has_def headers_append_def
      text_response_def normalize_value_def is_http_ws_def js_def)

lemma error_500_eq: "returned error_500 = Responded (text_response 500 (js ''Error fetching the target site.''))"
  by (simp add: error_500_def new_Response_text_plain null_body_status_def returned_def)


text \<open>
  C9. The error mapping of the handler. A request whose first path segment is not
  \<open>proxy\<close> is answered with status 501 and a fixed message, and nothing is fetched.
  A request whose decoded target does not parse as a URL is answered with status 400
  and the body \<open>Invalid URL\<close>. When the fetch throws, the answer has status 500 and
  a fixed message.
\<close>

theorem C9_error_mapping:
  "(new_URL P (req_url r1) None = Some url1 \<and>
      index (split_on 0x2F (pathname url1)) 1 \<noteq> Some (js ''proxy'') \<longrightarrow>
      handleRequest P r1 = (Responded (text_response 501 message_501), [])) \<and>
   (new_URL P (req_url r2) None = Some url2 \<and>
      index (split_on 0x2F (pathname url2)) 1 = Some (js ''proxy'') \<and>
      join (js ''/'') (drop 2 (split_on 0x2F (pathname url2))) = e \<and> e \<noteq> [] \<and>
      decodeURIComponent e = Some d \<and>
      new_URL P (if test_http_scheme d then d else js ''https://'' @ d) None = None \<longrightarrow>
      handleRequest P r2 = (Responded (text_response 400 (js ''Invalid URL'')), [])) \<and>
   (prepare P r3 = Inr (url3, target3, m3) \<and> fetch P m3 = None \<longrightarrow>
      handleRequest P r3 =
        (Responded (text_response 500 (js ''Error fetching the target site.'')), [m3]))"
proof (intro conjI impI)
  assume "new_URL P (req_url r1) None = Some url1 \<and>
      index (split_on 0x2F (pathname url1)) 1 \<noteq> Some (js ''proxy'')"
  then show "handleRequest P r1 = (Responded (text_response 501 message_501), [])"
    by (simp add: handleRequest_def prepare_def new_Response_text_plain null_body_status_def
        returned_def)
next
  assume a: "new_URL P (req_url r2) None = Some url2 \<and>
      index (split_on 0x2F (pathname url2)) 1 = Some (js ''proxy'') \<and>
      join (js ''/'') (drop 2 (split_on 0x2F (pathname url2))) = e \<and> e \<noteq> [] \<and>
      decodeURIComponent e = Some d \<and>
      new_URL P (if test_http_scheme d then d else js ''https://'' @ d) None = None"
  then have "decodeTarget P e = None" by (auto simp add: decodeTarget_def)
  with a show "handleRequest P r2 = (Responded (text_response 400 (js ''Invalid URL'')), [])"
    by (simp add: handleRequest_def prepare_def new_Response_text_plain null_body_status_def
        returned_def)
next
  assume "prepare P r3 = Inr (url3, target3, m3) \<and> fetch P m3 = None"
  then show "handleRequest P r3 =
        (Responded (text_response 500 (js ''Error fetching the target site.'')), [m3])"
    by (simp add: handleRequest_def error_500_eq)
qed


theorem C9_error_mapping_witness:
  "new_URL example_platform (req_url request_other) None = Some url_other \<and>
   index (split_on 0x2F (pathname url_other)) 1 \<noteq> Some (js ''proxy'') \<and>
   handleRequest example_platform request_other =
     (Responded (text_response 501 message_501), []) \<and>
   new_URL example_platform (req_url request_invalid) None = Some url_invalid \<and>
   index (split_on 0x2F (pathname url_invalid)) 1 = Some (js ''proxy'') \<and>
   join (js ''/'') (drop 2 (split_on 0x2F (pathname url_invalid))) = js ''https%3A%2F%2F'' \<and>
   decodeURIComponent (js ''https%3A%2F%2F'') = Some (js ''https://'') \<and>
   new_URL example_platform (js ''https://'') None = None \<and>
   handleRequest example_platform request_invalid =
     (Responded (text_response 400 (js ''Invalid URL'')), []) \<and>
   prepare example_platform request_x = Inr (url_proxy_x, url_x, outbound_x) \<and>
   fetch example_platform outbound_x = None \<and>
   handleRequest example_platform request_x =
     (Responded (text_response 500 (js ''Error fetching the target site.'')), [outbound_x])"
proof -
  have 1: "new_URL example_platform (req_url request_other) None = Some url_other"
    "index (split_on 0x2F (pathname url_other)) 1 \<noteq> Some (js ''proxy'')"
    by code_simp+
  have 2: "new_URL example_platform (req_url request_invalid) None = Some url_invalid"
    "index (split_on 0x2F (pathname url_invalid)) 1 = Some (js ''proxy'')"
    "join (js ''/'') (drop 2 (split_on 0x2F (pathname url_invalid))) = js ''https%3A%2F%2F''"
    "js ''https%3A%2F%2F'' \<noteq> []"
    "decodeURIComponent (js ''https%3A%2F%2F'') = Some (js ''https://'')"
    "test_http_scheme (js ''https://'')"
    "new_URL example_platform (js ''https://'') None = None"
    by code_simp+
  have 3: "prepare example_platform request_x = Inr (url_proxy_x, url_x, outbound_x)"
    "fetch example_platform outbound_x = None"
    by code_simp+
  from 2(6,7) have 4: "new_URL example_platform
      (if test_http_scheme (js ''https://'') then js ''https://'' else js ''https://'' @ js ''https://'')
      None = None" by simp
  show ?thesis
    using 1 2 3 4
      C9_error_mapping [of example_platform request_other url_other request_invalid url_invalid
        "js ''https%3A%2F%2F''" "js ''https://''" request_x url_proxy_x url_x outbound_x]
    by blast
qed

section \<open>Header transformations\<close>

lemma getAll_delete:
  "headers_getAll (headers_delete hs n) m =
     (if header_name_eq n m then [] else headers_getAll hs m)"
  by (induction hs) (auto simp add: headers_getAll_def headers_delete_def header_name_eq_def)

lemma getAll_append:
  "headers_getAll (headers_append hs n v) m =
     headers_getAll hs m @ (if header_name_eq n m then [normalize_value v] else [])"
  by (simp add: headers_getAll_def headers_append_def)

lemma getAll_set:
  "headers_getAll (headers_set hs n v) m =
     (if header_name_eq n m then [normalize_value v] else headers_getAll hs m)"
proof (induction hs)
  case Nil
  then show ?case by (simp add: headers_getAll_def)
next
  case (Cons h hs)
  show ?case
  proof (cases "header_name_eq (fst h) n")
    case True
    then show ?thesis
      using getAll_delete [of hs n m]
      by (auto simp add: headers_getAll_def header_name_eq_def)
  next
    case False
    with Cons show ?thesis
      by (auto simp add: headers_getAll_def header_name_eq_def)
  qed
qed

lemma getAll_foldl_append:
  "headers_getAll (foldl (\<lambda>h c. headers_append h n c) hs cs) m =
     headers_getAll hs m @ (if header_name_eq n m then map normalize_value cs else [])"
  by (induction cs arbitrary: hs) (simp_all add: getAll_append)

lemma has_getAll: "headers_has hs n \<longleftrightarrow> headers_getAll hs n \<noteq> []"
  by (induction hs) (auto simp add: headers_has_def headers_getAll_def)

lemma get_None: "headers_get hs n = None \<longleftrightarrow> headers_getAll hs n = []"
  by (simp add: headers_get_def split: list.splits)

lemma name_eq_trans: "header_name_eq a b \<Longrightarrow> header_name_eq b c \<Longrightarrow> header_name_eq a c"
  by (simp add: header_name_eq_def)

lemma name_eq_refl: "header_name_eq a a"
  by (simp add: header_name_eq_def)

lemma name_eq_sym: "header_name_eq a b \<Longrightarrow> header_name_eq b a"
  by (simp add: header_name_eq_def)

lemma names_distinct:
  "\<not> header_name_eq (js ''Set-Cookie'') (js ''Location'')"
  "\<not> header_name_eq (js ''Content-Security-Policy'') (js ''Location'')"
  "\<not> header_name_eq (js ''X-Frame-Options'') (js ''Location'')"
  "\<not> header_name_eq (js ''X-Content-Type-Options'') (js ''Location'')"
  "\<not> header_name_eq (js ''Location'') (js ''Set-Cookie'')"
  "\<not> header_name_eq (js ''Content-Security-Policy'') (js ''Set-Cookie'')"
  "\<not> header_name_eq (js ''X-Frame-Options'') (js ''Set-Cookie'')"
  "\<not> header_name_eq (js ''X-Content-Type-Options'') (js ''Set-Cookie'')"
  "\<not> header_name_eq (js ''content-type'') (js ''Location'')"
  "\<not> header_name_eq (js ''content-type'') (js ''Set-Cookie'')"
  by code_simp+

lemma getAll_transformHeaders_Location:
  "headers_getAll (transformHeaders P r target po) (js ''Location'') =
     (case headers_get (res_headers r) (js ''Location'') of
        None \<Rightarrow> []
      | Some loc \<Rightarrow> [normalize_value (rewriteLocation P loc target po)])"
proof (cases "headers_get (res_headers r) (js ''Location'')")
  case None
  then have "headers_getAll (res_headers r) (js ''Location'') = []" by (simp add: get_None)
  then show ?thesis using None
    by (simp add: transformHeaders_def Let_def getAll_delete getAll_foldl_append names_distinct
        has_getAll)
next
  case (Some loc)
  then have "headers_getAll (res_headers r) (js ''Location'') \<noteq> []"
    using get_None [of "res_headers r" "js ''Location''"] by simp
  then show ?thesis using Some
    by (simp add: transformHeaders_def Let_def getAll_delete getAll_set names_distinct has_getAll
        name_eq_refl)
qed







lemma respond_Location:
  assumes "respond P r target po = Some resp"
  shows "headers_getAll (res_headers resp) (js ''Location'') =
         headers_getAll (transformHeaders P r target po) (js ''Location'')"
  using assms
  by (auto simp add: respond_def Let_def new_Response_text_def new_Response_def getAll_append
      names_distinct split: option.splits if_splits)

lemma respond_status:
  assumes "respond P r target po = Some resp"
  shows "res_status resp = res_status r"
  using assms
  by (auto simp add: respond_def Let_def new_Response_text_def new_Response_def
      split: option.splits if_splits)

lemma prepare_manual: "prepare P request = Inr (u, t, m) \<Longrightarrow> req_redirect m = Manual"
  by (auto simp add: prepare_def Let_def split: option.splits if_splits)




lemma rewriteLocation_resolved:
  assumes "new_URL P loc (Some (href target)) = Some a" "wf_utf16 (href a)"
  shows "\<exists>e. encodeURIComponent (href a) = Some e \<and>
             rewriteLocation P loc target po = po @ js ''/proxy/'' @ e"
proof -
  from encode_total [OF assms(2)] obtain e where "encodeURIComponent (href a) = Some e" ..
  with assms(1) show ?thesis by (simp add: rewriteLocation_def)
qed

lemma escape_utf8_chars:
  assumes "cp < 0x110000"
  shows "\<forall>c \<in> set (escape_utf8 cp). c = 0x25 \<or> hexval c \<noteq> None"
proof -
  have "c = 0x25 \<or> hexval c \<noteq> None" if "c \<in> set (hex_escape b)" "b < 256" for c b
  proof -
    from that(2) have "b div 16 < 16" "b mod 16 < 16" by simp_all
    with that(1) hexval_hexdigit show ?thesis by (auto simp add: hex_escape_def)
  qed
  with utf8_encode_bytes [OF assms] show ?thesis by (auto simp add: escape_utf8_def)
qed

lemma encode_chars:
  "encodeURIComponent u = Some e \<Longrightarrow>
   \<forall>c \<in> set e. uriUnescaped c \<or> c = 0x25 \<or> hexval c \<noteq> None"
proof (induction u arbitrary: e rule: encodeURIComponent.induct)
  case 1
  then show ?case by simp
next
  case (2 c cs)
  show ?case
  proof (cases "uriUnescaped c")
    case True
    with "2.prems" obtain e' where e': "encodeURIComponent cs = Some e'" "e = c # e'" by auto
    with "2.IH"(1) [OF True e'(1)] True show ?thesis by simp
  next
    case nu: False
    show ?thesis
    proof (cases "is_lead c")
      case True
      then have nt: "\<not> is_trail c" by (auto simp: is_lead_def is_trail_def word_le_nat_alt)
      from "2.prems" nu nt True obtain d ds e' where
        cs: "cs = d # ds" and d: "is_trail d" and e': "encodeURIComponent ds = Some e'"
        and e: "e = escape_utf8 (pair_cp c d) @ e'"
        by (cases cs) (auto split: if_splits)
      from "2.IH"(2) [OF nu nt True cs d e'] escape_utf8_chars [OF pair_cp_range(2) [OF True d]] e
      show ?thesis by auto
    next
      case False
      with "2.prems" nu obtain e' where nt: "\<not> is_trail c"
        and e': "encodeURIComponent cs = Some e'" and e: "e = escape_utf8 (unat c) @ e'"
        by (auto split: if_splits)
      have "unat c < 0x110000" using unsigned_less [of c, where ?'a = nat] by simp
      from "2.IH"(3) [OF nu nt False e'] escape_utf8_chars [OF this] e
      show ?thesis by auto
    qed
  qed
qed

lemma http_ws_not_encoded:
  "is_http_ws c \<Longrightarrow> \<not> (uriUnescaped c \<or> c = 0x25 \<or> hexval c \<noteq> None)"
  by (auto simp add: is_http_ws_def uriUnescaped_def hexval_def is_upper_def is_lower_def
      is_digit_def)

lemma normalize_value_id:
  assumes "x \<noteq> []" "\<not> is_http_ws (hd x)" "\<not> is_http_ws (last x)"
  shows "normalize_value x = x"
proof -
  from assms(1,2) have 1: "dropWhile is_http_ws x = x" by (cases x) auto
  from assms(1,3) have "dropWhile is_http_ws (rev x) = rev x"
    by (cases "rev x") (auto simp add: last_rev [symmetric] simp del: last_rev)
  with 1 show ?thesis by (simp add: normalize_value_def)
qed

lemma normalize_proxy_url:
  assumes "po \<noteq> []" "list_all (\<lambda>c. \<not> is_http_ws c) po" "encodeURIComponent u = Some e"
  shows "normalize_value (po @ js ''/proxy/'' @ e) = po @ js ''/proxy/'' @ e"
proof (rule normalize_value_id)
  show "po @ js ''/proxy/'' @ e \<noteq> []" using assms(1) by simp
  show "\<not> is_http_ws (hd (po @ js ''/proxy/'' @ e))"
    using assms(1,2) by (cases po) auto
  have "\<not> is_http_ws (last (js ''/proxy/'' @ e))"
  proof (cases "e = []")
    case True
    then show ?thesis by (simp add: js_def is_http_ws_def)
  next
    case False
    then have "last (js ''/proxy/'' @ e) = last e" by simp
    moreover have "last e \<in> set e" using False by simp
    ultimately show ?thesis using encode_chars [OF assms(3)] http_ws_not_encoded by metis
  qed
  moreover have "last (po @ js ''/proxy/'' @ e) = last (js ''/proxy/'' @ e)"
    by (simp add: js_def)
  ultimately show "\<not> is_http_ws (last (po @ js ''/proxy/'' @ e))" by simp
qed

text \<open>
  Every request that the handler passes to \<open>fetch\<close> has the redirect mode \<open>manual\<close>.
  When the upstream response carries a \<open>Location\<close> header and the handler answers
  with the rewritten response, then: if the value resolves against the target, the
  header becomes the origin of the proxy, \<open>/proxy/\<close> and the percent-encoded resolved
  URL; if it does not resolve, the header keeps its value. The origin of a URL is
  not empty and holds no white space, and a header value of the upstream response
  has none around it.
\<close>

lemma location_rewritten:
  "(\<forall>m \<in> set (snd (handleRequest P request)). req_redirect m = Manual) \<and>
   (prepare P2 request2 = Inr (url2, target2, m2) \<and> fetch P2 m2 = Some r2 \<and>
      headers_get (res_headers r2) (js ''Location'') = Some loc2 \<and>
      respond P2 r2 target2 (origin url2) = Some resp2 \<and>
      new_URL P2 loc2 (Some (href target2)) = Some a \<and> wf_utf16 (href a) \<and>
      origin url2 \<noteq> [] \<and> list_all (\<lambda>c. \<not> is_http_ws c) (origin url2) \<longrightarrow>
      handleRequest P2 request2 = (Responded resp2, [m2]) \<and>
      (\<exists>e. encodeURIComponent (href a) = Some e \<and>
           headers_get (res_headers resp2) (js ''Location'') =
             Some (origin url2 @ js ''/proxy/'' @ e))) \<and>
   (prepare P3 request3 = Inr (url3, target3, m3) \<and> fetch P3 m3 = Some r3 \<and>
      headers_get (res_headers r3) (js ''Location'') = Some loc3 \<and>
      respond P3 r3 target3 (origin url3) = Some resp3 \<and>
      new_URL P3 loc3 (Some (href target3)) = None \<and> normalize_value loc3 = loc3 \<longrightarrow>
      handleRequest P3 request3 = (Responded resp3, [m3]) \<and>
      headers_get (res_headers resp3) (js ''Location'') = Some loc3)"
proof (intro conjI impI ballI)
  fix m assume "m \<in> set (snd (handleRequest P request))"
  then show "req_redirect m = Manual"
    by (auto simp add: handleRequest_def split: sum.splits option.splits dest: prepare_manual)
next
  assume a: "prepare P2 request2 = Inr (url2, target2, m2) \<and> fetch P2 m2 = Some r2 \<and>
      headers_get (res_headers r2) (js ''Location'') = Some loc2 \<and>
      respond P2 r2 target2 (origin url2) = Some resp2 \<and>
      new_URL P2 loc2 (Some (href target2)) = Some a \<and> wf_utf16 (href a) \<and>
      origin url2 \<noteq> [] \<and> list_all (\<lambda>c. \<not> is_http_ws c) (origin url2)"
  then show "handleRequest P2 request2 = (Responded resp2, [m2])"
    by (simp add: handleRequest_def)
  from a rewriteLocation_resolved [of P2 loc2 target2 a "origin url2"] obtain e where
    e: "encodeURIComponent (href a) = Some e"
      "rewriteLocation P2 loc2 target2 (origin url2) = origin url2 @ js ''/proxy/'' @ e"
    by blast
  from a normalize_proxy_url [OF _ _ e(1), of "origin url2"]
  have n: "normalize_value (origin url2 @ js ''/proxy/'' @ e) = origin url2 @ js ''/proxy/'' @ e"
    by simp
  from a respond_Location [of P2 r2 target2 "origin url2" resp2]
    getAll_transformHeaders_Location [of P2 r2 target2 "origin url2"] e(2) n
  have "headers_get (res_headers resp2) (js ''Location'') =
      Some (origin url2 @ js ''/proxy/'' @ e)"
    by (simp add: headers_get_def)
  with e(1) show "\<exists>e. encodeURIComponent (href a) = Some e \<and>
           headers_get (res_headers resp2) (js ''Location'') =
             Some (origin url2 @ js ''/proxy/'' @ e)" by blast
next
  assume a: "prepare P3 request3 = Inr (url3, target3, m3) \<and> fetch P3 m3 = Some r3 \<and>
      headers_get (res_headers r3) (js ''Location'') = Some loc3 \<and>
      respond P3 r3 target3 (origin url3) = Some resp3 \<and>
      new_URL P3 loc3 (Some (href target3)) = None \<and> normalize_value loc3 = loc3"
  then show "handleRequest P3 request3 = (Responded resp3, [m3])"
    by (simp add: handleRequest_def)
  from a have "rewriteLocation P3 loc3 target3 (origin url3) = loc3"
    by (simp add: rewriteLocation_def)
  with a respond_Location [of P3 r3 target3 "origin url3" resp3]
    getAll_transformHeaders_Location [of P3 r3 target3 "origin url3"]
  show "headers_get (res_headers resp3) (js ''Location'') = Some loc3"
    by (simp add: headers_get_def)
qed

lemma location_rewritten_example:
  "snd (handleRequest platform_json request_x) = [outbound_x] \<and>
   req_redirect outbound_x = Manual \<and>
   prepare platform_json request_x = Inr (url_proxy_x, url_x, outbound_x) \<and>
   fetch platform_json outbound_x = Some upstream_json \<and>
   headers_get (res_headers upstream_json) (js ''Location'') = Some (js ''/next'') \<and>
   respond platform_json upstream_json url_x (origin url_proxy_x) = Some response_json \<and>
   new_URL platform_json (js ''/next'') (Some (href url_x)) = Some url_next \<and>
   wf_utf16 (href url_next) \<and>
   origin url_proxy_x \<noteq> [] \<and> list_all (\<lambda>c. \<not> is_http_ws c) (origin url_proxy_x) \<and>
   handleRequest platform_json request_x = (Responded response_json, [outbound_x]) \<and>
   (\<exists>e. encodeURIComponent (href url_next) = Some e \<and>
        headers_get (res_headers response_json) (js ''Location'') =
          Some (origin url_proxy_x @ js ''/proxy/'' @ e)) \<and>
   headers_get (res_headers response_json) (js ''Location'') =
     Some (js ''https://proxy.example/proxy/https%3A%2F%2Fexample.com%2Fnext'') \<and>
   prepare platform_unresolved request_x = Inr (url_proxy_x, url_x, outbound_x) \<and>
   fetch platform_unresolved outbound_x = Some upstream_unresolved \<and>
   headers_get (res_headers upstream_unresolved) (js ''Location'') = Some (js ''https://'') \<and>
   respond platform_unresolved upstream_unresolved url_x (origin url_proxy_x) =
     Some upstream_unresolved \<and>
   new_URL platform_unresolved (js ''https://'') (Some (href url_x)) = None \<and>
   normalize_value (js ''https://'') = js ''https://'' \<and>
   handleRequest platform_unresolved request_x = (Responded upstream_unresolved, [outbound_x]) \<and>
   headers_get (res_headers upstream_unresolved) (js ''Location'') = Some (js ''https://'')"
proof -
  have h: "req_redirect outbound_x = Manual"
    "prepare platform_json request_x = Inr (url_proxy_x, url_x, outbound_x)"
    "fetch platform_json outbound_x = Some upstream_json"
    "headers_get (res_headers upstream_json) (js ''Location'') = Some (js ''/next'')"
    "respond platform_json upstream_json url_x (origin url_proxy_x) = Some response_json"
    "new_URL platform_json (js ''/next'') (Some (href url_x)) = Some url_next"
    "wf_utf16 (href url_next)"
    "origin url_proxy_x \<noteq> []" "list_all (\<lambda>c. \<not> is_http_ws c) (origin url_proxy_x)"
    "headers_get (res_headers response_json) (js ''Location'') =
       Some (js ''https://proxy.example/proxy/https%3A%2F%2Fexample.com%2Fnext'')"
    by code_simp+
  have g: "prepare platform_unresolved request_x = Inr (url_proxy_x, url_x, outbound_x)"
    "fetch platform_unresolved outbound_x = Some upstream_unresolved"
    "headers_get (res_headers upstream_unresolved) (js ''Location'') = Some (js ''https://'')"
    "respond platform_unresolved upstream_unresolved url_x (origin url_proxy_x) =
       Some upstream_unresolved"
    "new_URL platform_unresolved (js ''https://'') (Some (href url_x)) = None"
    "normalize_value (js ''https://'') = js ''https://''"
    by code_simp+
  note t = location_rewritten [where P = platform_json and request = request_x
      and ?P2.0 = platform_json and ?request2.0 = request_x and ?url2.0 = url_proxy_x
      and ?target2.0 = url_x and ?m2.0 = outbound_x and ?r2.0 = upstream_json
      and ?loc2.0 = "js ''/next''" and ?resp2.0 = response_json and a = url_next
      and ?P3.0 = platform_unresolved and ?request3.0 = request_x and ?url3.0 = url_proxy_x
      and ?target3.0 = url_x and ?m3.0 = outbound_x and ?r3.0 = upstream_unresolved
      and ?loc3.0 = "js ''https://''" and ?resp3.0 = upstream_unresolved]
  from h g t have "handleRequest platform_json request_x = (Responded response_json, [outbound_x])"
    by blast
  then have "snd (handleRequest platform_json request_x) = [outbound_x]" by simp
  with h g t show ?thesis by blast
qed

section \<open>The refresh directive\<close>

lemma split_on_nonempty: "split_on sep s \<noteq> []"
  by (induction s) (auto split: list.splits)

lemma split_on_length: "length (split_on sep s) = Suc (length (filter (\<lambda>x. x = sep) s))"
  by (induction s) (auto split: list.splits simp add: split_on_nonempty)

lemma split_on_one:
  "sep \<notin> set d \<Longrightarrow> sep \<notin> set p \<Longrightarrow> split_on sep (d @ sep # p) = [d, p]"
  by (induction d) (auto simp add: split_on_absent)

lemma getAttribute_setAttribute: "getAttribute (setAttribute el n v) n = Some v"
  by (induction el n v rule: setAttribute.induct) (auto simp add: getAttribute_def)

lemma length_two: "length xs \<noteq> 2 \<Longrightarrow> (case xs of [a, b] \<Rightarrow> f a b | _ \<Rightarrow> g) = g"
  by (auto split: list.splits)


text \<open>
  C7. \<open>applyHTMLRewriter\<close>, which the handler runs on every HTML document, hands the
  platform one handler under the selector \<open>meta[http-equiv="refresh"]\<close>, and on
  every element that handler is \<open>metaRefresh\<close>.
  For an element whose \<open>content\<close> holds exactly one semicolon and whose second part,
  trimmed, starts with \<open>url=\<close> in any case, the rest of that part is rewritten with
  \<open>rewriteAttributeValue\<close> and the attribute becomes the first part, \<open>; url=\<close> and the
  rewritten value; so \<open>5;url=https://example.com/x\<close> becomes \<open>5; url=\<close> followed by
  the proxy path of \<open>https://example.com/x\<close>, and \<open>0;  URL=/y\<close> with white space after
  it, against the target \<open>https://example.com/a/\<close>, becomes \<open>0; url=\<close> followed by the
  proxy path of \<open>https://example.com/y\<close>. A content of any other shape, or none,
  leaves the element as it is.
\<close>

theorem C7_meta_refresh:
  \<open>applyHTMLRewriter P html target = HTMLRewriter P (elementHandlers P target) html \<and>
   text_of (applyHTMLRewriter_response P r target) =
     HTMLRewriter P (elementHandlers P target) (text_of r) \<and>
   length (filter (\<lambda>r. fst r = js ''meta[http-equiv="refresh"]'') (elementHandlers P target)) = 1 \<and>
   ((js ''meta[http-equiv="refresh"]'', h) \<in> set (elementHandlers P target) \<longrightarrow>
      h el = metaRefresh P el target) \<and>
   (getAttribute el1 (js ''content'') = Some (d @ 0x3B # p) \<and> 0x3B \<notin> set d \<and> 0x3B \<notin> set p \<and>
      starts_with_ci (js ''url='') (trim p) \<longrightarrow>
      metaRefresh P el1 target =
        setAttribute el1 (js ''content'')
          (d @ js ''; url='' @ rewriteAttributeValue P (drop 4 (trim p)) target) \<and>
      getAttribute (metaRefresh P el1 target) (js ''content'') =
        Some (d @ js ''; url='' @ rewriteAttributeValue P (drop 4 (trim p)) target)) \<and>
   (getAttribute el2 (js ''content'') = Some (d2 @ 0x3B # p2) \<and> 0x3B \<notin> set d2 \<and>
      0x3B \<notin> set p2 \<and> \<not> starts_with_ci (js ''url='') (trim p2) \<longrightarrow>
      metaRefresh P el2 target = el2) \<and>
   (getAttribute el3 (js ''content'') = Some c3 \<and> length (filter (\<lambda>x. x = 0x3B) c3) \<noteq> 1 \<longrightarrow>
      metaRefresh P el3 target = el3) \<and>
   (getAttribute el4 (js ''content'') = None \<longrightarrow> metaRefresh P el4 target = el4) \<and>
   metaRefresh example_platform meta_example target_a =
     [(js ''http-equiv'', js ''refresh''),
      (js ''content'', js ''5; url=/proxy/https%3A%2F%2Fexample.com%2Fx'')] \<and>
   Encode (js ''https://example.com/x'') = Some (js ''/proxy/https%3A%2F%2Fexample.com%2Fx'') \<and>
   metaRefresh example_platform meta_spaced target_a =
     [(js ''http-equiv'', js ''refresh''),
      (js ''content'', js ''0; url=/proxy/https%3A%2F%2Fexample.com%2Fy'')] \<and>
   Encode (js ''https://example.com/y'') = Some (js ''/proxy/https%3A%2F%2Fexample.com%2Fy'')\<close>
proof (intro conjI impI)
  show "applyHTMLRewriter P html target = HTMLRewriter P (elementHandlers P target) html"
    by (simp add: applyHTMLRewriter_def)
next
  show "text_of (applyHTMLRewriter_response P r target) =
     HTMLRewriter P (elementHandlers P target) (text_of r)"
    by (simp add: applyHTMLRewriter_response_def applyHTMLRewriter_def text_of_def)
next
  show \<open>length (filter (\<lambda>r. fst r = js ''meta[http-equiv="refresh"]'')
      (elementHandlers P target)) = 1\<close>
    by (simp add: elementHandlers_def js_def)
next
  assume \<open>(js ''meta[http-equiv="refresh"]'', h) \<in> set (elementHandlers P target)\<close>
  then have "h = (\<lambda>el. metaRefresh P el target)"
    by (simp add: elementHandlers_def js_def)
  then show "h el = metaRefresh P el target" by simp
next
  assume a: "getAttribute el1 (js ''content'') = Some (d @ 0x3B # p) \<and> 0x3B \<notin> set d \<and>
      0x3B \<notin> set p \<and> starts_with_ci (js ''url='') (trim p)"
  then have s: "split_on 0x3B (d @ 0x3B # p) = [d, p]" by (simp add: split_on_one)
  from a s show m: "metaRefresh P el1 target =
        setAttribute el1 (js ''content'')
          (d @ js ''; url='' @ rewriteAttributeValue P (drop 4 (trim p)) target)"
    by (simp add: metaRefresh_def Let_def)
  show "getAttribute (metaRefresh P el1 target) (js ''content'') =
        Some (d @ js ''; url='' @ rewriteAttributeValue P (drop 4 (trim p)) target)"
    unfolding m by (rule getAttribute_setAttribute)
next
  assume a: "getAttribute el2 (js ''content'') = Some (d2 @ 0x3B # p2) \<and> 0x3B \<notin> set d2 \<and>
      0x3B \<notin> set p2 \<and> \<not> starts_with_ci (js ''url='') (trim p2)"
  then have s: "split_on 0x3B (d2 @ 0x3B # p2) = [d2, p2]" by (simp add: split_on_one)
  from a s show "metaRefresh P el2 target = el2" by (simp add: metaRefresh_def Let_def)
next
  assume a: "getAttribute el3 (js ''content'') = Some c3 \<and>
      length (filter (\<lambda>x. x = 0x3B) c3) \<noteq> 1"
  then have "length (split_on 0x3B c3) \<noteq> 2" by (simp add: split_on_length)
  with a show "metaRefresh P el3 target = el3" by (simp add: metaRefresh_def length_two)
next
  assume "getAttribute el4 (js ''content'') = None"
  then show "metaRefresh P el4 target = el4" by (simp add: metaRefresh_def)
next
  show "metaRefresh example_platform meta_example target_a =
     [(js ''http-equiv'', js ''refresh''),
      (js ''content'', js ''5; url=/proxy/https%3A%2F%2Fexample.com%2Fx'')]"
    by code_simp
  show "Encode (js ''https://example.com/x'') = Some (js ''/proxy/https%3A%2F%2Fexample.com%2Fx'')"
    by code_simp
  show "metaRefresh example_platform meta_spaced target_a =
     [(js ''http-equiv'', js ''refresh''),
      (js ''content'', js ''0; url=/proxy/https%3A%2F%2Fexample.com%2Fy'')]"
    by code_simp
  show "Encode (js ''https://example.com/y'') = Some (js ''/proxy/https%3A%2F%2Fexample.com%2Fy'')"
    by code_simp
qed

theorem C7_meta_refresh_witness:
  \<open>(js ''meta[http-equiv="refresh"]'', \<lambda>el. metaRefresh example_platform el target_a)
     \<in> set (elementHandlers example_platform target_a) \<and>
   (\<lambda>el. metaRefresh example_platform el target_a) meta_example =
     metaRefresh example_platform meta_example target_a \<and>
   getAttribute meta_example (js ''content'') = Some (js ''5'' @ 0x3B # js ''url=https://example.com/x'') \<and>
   0x3B \<notin> set (js ''5'') \<and> 0x3B \<notin> set (js ''url=https://example.com/x'') \<and>
   starts_with_ci (js ''url='') (trim (js ''url=https://example.com/x'')) \<and>
   getAttribute (metaRefresh example_platform meta_example target_a) (js ''content'') =
     Some (js ''5'' @ js ''; url='' @
       rewriteAttributeValue example_platform (drop 4 (trim (js ''url=https://example.com/x''))) target_a) \<and>
   getAttribute [(js ''content'', js ''5;x'')] (js ''content'') = Some (js ''5'' @ 0x3B # js ''x'') \<and>
   0x3B \<notin> set (js ''x'') \<and> \<not> starts_with_ci (js ''url='') (trim (js ''x'')) \<and>
   metaRefresh example_platform [(js ''content'', js ''5;x'')] target_a = [(js ''content'', js ''5;x'')] \<and>
   getAttribute [(js ''content'', js ''5'')] (js ''content'') = Some (js ''5'') \<and>
   length (filter (\<lambda>x. x = 0x3B) (js ''5'')) \<noteq> 1 \<and>
   metaRefresh example_platform [(js ''content'', js ''5'')] target_a = [(js ''content'', js ''5'')] \<and>
   getAttribute [] (js ''content'') = None \<and>
   metaRefresh example_platform [] target_a = []\<close>
proof -
  have 0: \<open>(js ''meta[http-equiv="refresh"]'', \<lambda>el. metaRefresh example_platform el target_a)
     \<in> set (elementHandlers example_platform target_a)\<close>
    by (simp add: elementHandlers_def)
  have 1: "getAttribute meta_example (js ''content'') = Some (js ''5'' @ 0x3B # js ''url=https://example.com/x'')"
    "0x3B \<notin> set (js ''5'')" "0x3B \<notin> set (js ''url=https://example.com/x'')"
    "starts_with_ci (js ''url='') (trim (js ''url=https://example.com/x''))"
    by code_simp+
  have 2: "getAttribute [(js ''content'', js ''5;x'')] (js ''content'') = Some (js ''5'' @ 0x3B # js ''x'')"
    "0x3B \<notin> set (js ''x'')" "\<not> starts_with_ci (js ''url='') (trim (js ''x''))"
    by code_simp+
  have 3: "getAttribute [(js ''content'', js ''5'')] (js ''content'') = Some (js ''5'')"
    "length (filter (\<lambda>x. x = 0x3B) (js ''5'')) \<noteq> 1"
    by code_simp+
  have 4: "getAttribute [] (js ''content'') = None" by code_simp
  note t = C7_meta_refresh [where P = example_platform and target = target_a
      and h = "\<lambda>el. metaRefresh example_platform el target_a" and el = meta_example
      and ?el1.0 = meta_example and d = "js ''5''" and p = "js ''url=https://example.com/x''"
      and ?el2.0 = "[(js ''content'', js ''5;x'')]" and ?d2.0 = "js ''5''" and ?p2.0 = "js ''x''"
      and ?el3.0 = "[(js ''content'', js ''5'')]" and ?c3.0 = "js ''5''" and ?el4.0 = "[]"]
  show ?thesis using 0 1 2 3 4 t by blast
qed


section \<open>Script injection and null body statuses\<close>

lemma GetSubstitution_plain: "0x24 \<notin> set t \<Longrightarrow> GetSubstitution m b a t = t"
  by (induction m b a t rule: GetSubstitution.induct) auto

lemma replace_first_str_none:
  "no_match m html \<Longrightarrow> replace_first_str m t pre html = pre @ html"
  by (induction html arbitrary: pre) auto

lemma replace_first_str_at:
  assumes "no_match_before m pre s" "m s = Some n" "s \<noteq> []"
  shows "replace_first_str m t acc (pre @ s) =
         acc @ pre @ GetSubstitution (take n s) (acc @ pre) (drop n s) t @ drop n s"
  using assms
proof (induction pre arbitrary: acc)
  case Nil
  then show ?case by (cases s) auto
next
  case (Cons c cs)
  from Cons.prems(1) have 0: "m (c # cs @ s) = None" and 1: "no_match_before m cs s" by simp_all
  from Cons.IH [OF 1 Cons.prems(2,3), of "acc @ [c]"] 0 show ?case by simp
qed

lemma starts_with_ci_append: "starts_with_ci p s \<Longrightarrow> starts_with_ci p (s @ t)"
  by (induction p s rule: starts_with_ci.induct) auto

lemma inject_without_head:
  assumes "html \<noteq> []" "no_match match_head_close html"
  shows "injectFakeEnvScript html target po = html"
  using assms replace_first_str_none [OF assms(2), of _ "[]"]
  by (simp add: injectFakeEnvScript_def Let_def)

lemma inject_empty:
  "injectFakeEnvScript [] target po =
     fakeEnvScript (host target) (origin target) (protocol target) po"
  by (simp add: injectFakeEnvScript_def Let_def)

lemma inject_before_head:
  assumes "no_match_before match_head_close pre (tag @ post)"
    "starts_with_ci (js ''</head>'') tag" "length tag = 7"
    "0x24 \<notin> set (fakeEnvScript (host target) (origin target) (protocol target) po)"
  shows "injectFakeEnvScript (pre @ tag @ post) target po =
     pre @ fakeEnvScript (host target) (origin target) (protocol target) po
       @ js ''</head>'' @ post"
proof -
  let ?script = "fakeEnvScript (host target) (origin target) (protocol target) po"
  have m: "match_head_close (tag @ post) = Some 7"
    using starts_with_ci_append [OF assms(2)] by (simp add: match_head_close_def)
  have ne: "tag @ post \<noteq> []" using assms(3) by auto
  have d: "0x24 \<notin> set (?script @ js ''</head>'')" using assms(4) by (simp add: js_def)
  from replace_first_str_at [OF assms(1) m ne, of "?script @ js ''</head>''" "[]"]
    GetSubstitution_plain [OF d] assms(3)
  have "replace_first_str match_head_close (?script @ js ''</head>'') [] (pre @ tag @ post) =
      pre @ ?script @ js ''</head>'' @ post" by simp
  moreover have "js ''</head>'' \<noteq> []" by (simp add: js_def)
  ultimately show ?thesis by (simp add: injectFakeEnvScript_def Let_def)
qed

lemma script_no_dollar:
  assumes "0x24 \<notin> set h" "0x24 \<notin> set ori" "0x24 \<notin> set p" "0x24 \<notin> set po"
  shows "0x24 \<notin> set (fakeEnvScript h ori p po)"
  using assms by (simp add: fakeEnvScript_def js_def)

lemma respond_null_body_html:
  assumes "null_body_status (res_status r)"
    "includes_str (case headers_get (res_headers r) (js ''Content-Type'') of
                     None \<Rightarrow> [] | Some c \<Rightarrow> c) (js ''text/html'')"
  shows "respond P r target po = None"
  using assms
  by (auto simp add: respond_def Let_def new_Response_text_def new_Response_def
      split: option.splits)

section \<open>Where the code departs from the claims\<close>

text \<open>
  C3. Every request that the handler passes to \<open>fetch\<close> has the redirect mode
  \<open>manual\<close>, so a redirect is never followed. But not every \<open>Location\<close> header is
  rewritten or passed on: for an upstream response with a null body status and the
  content type \<open>text/html\<close>, the \<open>Response\<close> constructor refuses the rewritten
  document after the header has been rewritten; the exception is caught, and the
  answer with status 500 has no \<open>Location\<close> header at all, though the value resolves
  against the target.
\<close>

theorem C3_location_dropped:
  "(\<forall>m \<in> set (snd (handleRequest P request)). req_redirect m = Manual) \<and>
   prepare platform_204_location request_x = Inr (url_proxy_x, url_x, outbound_x) \<and>
   fetch platform_204_location outbound_x = Some upstream_204_location \<and>
   res_status upstream_204_location = 204 \<and>
   headers_get (res_headers upstream_204_location) (js ''Location'') = Some (js ''/next'') \<and>
   new_URL platform_204_location (js ''/next'') (Some (href url_x)) = Some url_next \<and>
   rewriteLocation platform_204_location (js ''/next'') url_x (origin url_proxy_x) =
     js ''https://proxy.example/proxy/https%3A%2F%2Fexample.com%2Fnext'' \<and>
   handleRequest platform_204_location request_x =
     (Responded (text_response 500 (js ''Error fetching the target site.'')), [outbound_x]) \<and>
   headers_get (res_headers (text_response 500 (js ''Error fetching the target site.'')))
     (js ''Location'') = None"
proof -
  have m: "\<forall>m \<in> set (snd (handleRequest P request)). req_redirect m = Manual"
    by (auto simp add: handleRequest_def split: sum.splits option.splits dest: prepare_manual)
  have h: "prepare platform_204_location request_x = Inr (url_proxy_x, url_x, outbound_x)"
    "fetch platform_204_location outbound_x = Some upstream_204_location"
    "res_status upstream_204_location = 204"
    "headers_get (res_headers upstream_204_location) (js ''Location'') = Some (js ''/next'')"
    "new_URL platform_204_location (js ''/next'') (Some (href url_x)) = Some url_next"
    "rewriteLocation platform_204_location (js ''/next'') url_x (origin url_proxy_x) =
       js ''https://proxy.example/proxy/https%3A%2F%2Fexample.com%2Fnext''"
    "headers_get (res_headers (text_response 500 (js ''Error fetching the target site.'')))
       (js ''Location'') = None"
    "null_body_status (res_status upstream_204_location)"
    "includes_str (case headers_get (res_headers upstream_204_location) (js ''Content-Type'') of
                     None \<Rightarrow> [] | Some c \<Rightarrow> c) (js ''text/html'')"
    "returned error_500 = Responded (text_response 500 (js ''Error fetching the target site.''))"
    by code_simp+
  from respond_null_body_html [OF h(8,9)]
  have "respond platform_204_location upstream_204_location url_x (origin url_proxy_x) = None" .
  with h have "handleRequest platform_204_location request_x =
      (Responded (text_response 500 (js ''Error fetching the target site.'')), [outbound_x])"
    by (simp add: handleRequest_def)
  with m h show ?thesis by blast
qed

theorem C3_location_dropped_witness:
  "snd (handleRequest platform_204_location request_x) = [outbound_x] \<and>
   req_redirect outbound_x = Manual"
proof -
  note t = C3_location_dropped [of platform_204_location request_x]
  from t have s: "snd (handleRequest platform_204_location request_x) = [outbound_x]" by simp
  from t have "\<forall>m \<in> set (snd (handleRequest platform_204_location request_x)).
      req_redirect m = Manual" by blast
  with s have "req_redirect outbound_x = Manual" by simp
  with s show ?thesis by simp
qed

text \<open>
  C4. \<open>rewriteSetCookie\<close> removes the leftmost text that matches
  \<open>/;?\s*Domain=[^;]+/i\<close>, which need not be the \<open>Domain\<close> attribute: in a cookie whose
  name ends in \<open>domain\<close>, the end of the name and the value go, and the \<open>Domain\<close>
  attribute stays.
\<close>

theorem C4_first_match_only:
  "rewriteSetCookie (js ''sess_domain=eu; Domain=example.com; Path=/; Secure'') =
     js ''sess_; Domain=example.com; Path=/; Secure'' \<and>
   rewriteSetCookie (js ''sid=1; Domain=a.example; Domain=b.example'') =
     js ''sid=1; Domain=b.example'' \<and>
   rewriteSetCookie (js ''sid=1; Domain=example.com; Path=/; Secure'') =
     js ''sid=1; Path=/; Secure''"
  by code_simp


text \<open>
  C6. The expressions of \<open>rewriteInlineJS\<close> match a literal up to its closing quote,
  without it, and the replacement ends with a quote of its own: the rewritten literal
  is followed by two quotes.
\<close>

theorem C6_doubled_quote:
  \<open>rewriteInlineJS example_platform (js ''window.location = "https://example.com/x"'')
     url_root (js ''https://proxy.example'') =
   Some (js ''window.location = "https://proxy.example/proxy/https%3A%2F%2Fexample.com%2Fx""'') \<and>
   rewriteInlineJS example_platform (js ''window.location = "/y"'')
     url_root (js ''https://proxy.example'') =
   Some (js ''window.location = "https://proxy.example/proxy/https%3A%2F%2Fexample.com%2Fy""'') \<and>
   parse_URL (js ''https://example.com/'') None = Some url_root\<close>
  by code_simp


text \<open>
  C8. A document without \<open></head>\<close> comes back from \<open>replace\<close> as it is, and only the
  empty string is falsy: a document that is not empty gets no script.
\<close>

theorem C8_no_fallback:
  "injectFakeEnvScript (js ''<html><body>hi</body></html>'') url_x (js ''https://proxy.example'') =
     js ''<html><body>hi</body></html>'' \<and>
   injectFakeEnvScript [] url_x (js ''https://proxy.example'') =
     fakeEnvScript (host url_x) (origin url_x) (protocol url_x) (js ''https://proxy.example'') \<and>
   injectFakeEnvScript (js ''<head>'' @ js ''</HEAD>'' @ js ''<body>'') url_x
       (js ''https://proxy.example'') =
     js ''<head>''
       @ fakeEnvScript (host url_x) (origin url_x) (protocol url_x) (js ''https://proxy.example'')
       @ js ''</head>'' @ js ''<body>''"
proof (intro conjI)
  have "js ''<html><body>hi</body></html>'' \<noteq> []"
    "no_match match_head_close (js ''<html><body>hi</body></html>'')"
    by code_simp+
  then show "injectFakeEnvScript (js ''<html><body>hi</body></html>'') url_x
      (js ''https://proxy.example'') = js ''<html><body>hi</body></html>''"
    by (rule inject_without_head)
next
  show "injectFakeEnvScript [] url_x (js ''https://proxy.example'') =
     fakeEnvScript (host url_x) (origin url_x) (protocol url_x) (js ''https://proxy.example'')"
    by (rule inject_empty)
next
  have 1: "no_match_before match_head_close (js ''<head>'') (js ''</HEAD>'' @ js ''<body>'')"
    "starts_with_ci (js ''</head>'') (js ''</HEAD>'')" "length (js ''</HEAD>'') = 7"
    by code_simp+
  have 2: "0x24 \<notin> set (host url_x)" "0x24 \<notin> set (origin url_x)"
    "0x24 \<notin> set (protocol url_x)" "0x24 \<notin> set (js ''https://proxy.example'')"
    by code_simp+
  show "injectFakeEnvScript (js ''<head>'' @ js ''</HEAD>'' @ js ''<body>'') url_x
       (js ''https://proxy.example'') =
     js ''<head>''
       @ fakeEnvScript (host url_x) (origin url_x) (protocol url_x) (js ''https://proxy.example'')
       @ js ''</head>'' @ js ''<body>''"
    by (rule inject_before_head [OF 1(1) 1(2) 1(3) script_no_dollar [OF 2(1) 2(2) 2(3) 2(4)]])
qed

text \<open>
  C10. For an upstream response with a null body status and the content type
  \<open>text/html\<close>, the rewritten document is a body that the \<open>Response\<close> constructor
  refuses with that status; the exception is caught and the answer has status 500.
\<close>

theorem C10_null_body_status:
  "prepare platform_204 request_x = Inr (url_proxy_x, url_x, outbound_x) \<and>
   fetch platform_204 outbound_x = Some upstream_204 \<and>
   res_status upstream_204 = 204 \<and>
   handleRequest platform_204 request_x =
     (Responded (text_response 500 (js ''Error fetching the target site.'')), [outbound_x])"
proof -
  have h: "prepare platform_204 request_x = Inr (url_proxy_x, url_x, outbound_x)"
    "fetch platform_204 outbound_x = Some upstream_204"
    "res_status upstream_204 = 204"
    "null_body_status (res_status upstream_204)"
    "includes_str (case headers_get (res_headers upstream_204) (js ''Content-Type'') of
                     None \<Rightarrow> [] | Some c \<Rightarrow> c) (js ''text/html'')"
    "returned error_500 = Responded (text_response 500 (js ''Error fetching the target site.''))"
    by code_simp+
  from respond_null_body_html [OF h(4,5)]
  have "respond platform_204 upstream_204 url_x (origin url_proxy_x) = None" .
  with h show ?thesis by (simp add: handleRequest_def)
qed

end
